theory Spec2Isabelle
  imports Complex_Main "HOL-Library.AList" "HOL-Library.Sublist" "HOL-Library.Log_Nat"
begin

section \<open>Data model of the comparison endpoint\<close>

text \<open>
  The endpoint \<^verbatim>\<open>app/api/compare-products/route.ts\<close> works on untyped JavaScript
  objects. A record handed to \<^verbatim>\<open>mergeProductData\<close> (a scraper's result or a fallback
  record) may leave any field out, so every field of \<open>partial_record\<close> is optional:
  \<open>None\<close> is JavaScript's \<^verbatim>\<open>undefined\<close>. Strings are \<open>string\<close>, arrays are lists, and
  an object of type \<^verbatim>\<open>Record<string, string>\<close> is the list of its entries in insertion
  order, which is the order \<^verbatim>\<open>Object.entries\<close> enumerates for keys that are not array
  indices. A field that is present has the type the merged record gives it: a source
  that returns, say, a number for \<^verbatim>\<open>features\<close> is outside the model.
\<close>

type_synonym js_object = "(string \<times> string) list"

record partial_record =
  p_name :: "string option"
  p_price :: "string option"
  p_rating :: "string option"
  p_features :: "string list option"
  p_description :: "string option"
  p_availability :: "string option"
  p_images :: "string list option"
  p_specifications :: "js_object option"

text \<open>The object literal \<^verbatim>\<open>merged\<close> of \<^verbatim>\<open>mergeProductData\<close>: every field is set.\<close>

record product_record =
  name :: string
  price :: string
  rating :: string
  features :: "string list"
  description :: string
  availability :: string
  images :: "string list"
  specifications :: js_object

section \<open>The merge engine\<close>

text \<open>
  \<^verbatim>\<open>if (result.price && !merged.price) merged.price = result.price\<close>: a string is truthy
  when it is not empty, \<^verbatim>\<open>undefined\<close> is falsy.
\<close>

fun keep_first :: "string \<Rightarrow> string option \<Rightarrow> string" where
  "keep_first cur None = cur"
| "keep_first cur (Some v) = (if v \<noteq> [] \<and> cur = [] then v else cur)"

text \<open>
  \<^verbatim>\<open>[...new Set(xs)]\<close>: a \<^verbatim>\<open>Set\<close> keeps the first occurrence of each value, in insertion
  order. \<open>set_add\<close> inserts the elements of a list one after the other.
\<close>

fun set_add :: "string list \<Rightarrow> string list \<Rightarrow> string list" where
  "set_add seen [] = seen"
| "set_add seen (x # xs) = set_add (if x \<in> set seen then seen else seen @ [x]) xs"

definition new_Set :: "string list \<Rightarrow> string list" where
  "new_Set xs = set_add [] xs"

text \<open>
  \<^verbatim>\<open>{ ...a, ...b }\<close>: the entries of \<open>b\<close> are written onto a copy of \<open>a\<close> in order; a key
  that is already there keeps its position and takes the new value, a new key goes to the
  end.
\<close>

definition spread :: "js_object \<Rightarrow> js_object \<Rightarrow> js_object" where
  "spread a b = fold (\<lambda>(k, v). AList.update k v) b a"

text \<open>The body of the loop \<^verbatim>\<open>for (const result of results)\<close>.\<close>

definition merge_result :: "product_record \<Rightarrow> partial_record \<Rightarrow> product_record" where
  "merge_result merged result =
     merged\<lparr>
       price := keep_first (price merged) (p_price result),
       rating := keep_first (rating merged) (p_rating result),
       description := keep_first (description merged) (p_description result),
       availability := keep_first (availability merged) (p_availability result),
       features := (case p_features result of
                      None \<Rightarrow> features merged
                    | Some fs \<Rightarrow> new_Set (features merged @ fs)),
       images := (case p_images result of
                    None \<Rightarrow> images merged
                  | Some imgs \<Rightarrow> new_Set (images merged @ imgs)),
       specifications := (case p_specifications result of
                            None \<Rightarrow> specifications merged
                          | Some sp \<Rightarrow> spread (specifications merged) sp)\<rparr>"

definition merged_init :: "string \<Rightarrow> product_record" where
  "merged_init productName =
     \<lparr>name = productName, price = [], rating = [], features = [], description = [],
      availability = [], images = [], specifications = []\<rparr>"

definition mergeProductData :: "partial_record list \<Rightarrow> string \<Rightarrow> product_record" where
  "mergeProductData results productName = foldl merge_result (merged_init productName) results"

subsection \<open>What the specification says about the merge\<close>

text \<open>The first non-empty value of a field when the inputs are scanned in order; empty if
  there is none.\<close>

fun first_nonempty :: "string option list \<Rightarrow> string" where
  "first_nonempty [] = []"
| "first_nonempty (None # vs) = first_nonempty vs"
| "first_nonempty (Some v # vs) = (if v = [] then first_nonempty vs else v)"

text \<open>The values an input contributes to a union field: nothing when the field is absent.\<close>

fun listed :: "string list option \<Rightarrow> string list" where
  "listed None = []"
| "listed (Some xs) = xs"

text \<open>The specification mapping of an input; the empty mapping when the field is absent.\<close>

fun spec_map :: "js_object option \<Rightarrow> (string \<rightharpoonup> string)" where
  "spec_map None = Map.empty"
| "spec_map (Some sp) = map_of sp"

text \<open>A JavaScript object holds a key once.\<close>

fun object_ok :: "js_object option \<Rightarrow> bool" where
  "object_ok None = True"
| "object_ok (Some sp) = distinct (map fst sp)"

text \<open>End-to-end scenario 3 of the specification: the two partial records A and B.\<close>

definition scenario3_A :: partial_record where
  "scenario3_A =
     \<lparr>p_name = None, p_price = Some [], p_rating = None, p_features = None,
      p_description = None, p_availability = None, p_images = None,
      p_specifications = Some [(''Color'', ''Red'')]\<rparr>"

definition scenario3_B :: partial_record where
  "scenario3_B =
     \<lparr>p_name = None, p_price = Some ''$10'', p_rating = None, p_features = None,
      p_description = None, p_availability = None, p_images = None,
      p_specifications = Some [(''Color'', ''Blue''), (''Size'', ''M'')]\<rparr>"

text \<open>
  Two inputs that agree on every field the loop reads: \<^verbatim>\<open>price\<close>, \<^verbatim>\<open>rating\<close>,
  \<^verbatim>\<open>description\<close>, \<^verbatim>\<open>availability\<close>, \<^verbatim>\<open>features\<close>, \<^verbatim>\<open>images\<close> and
  \<^verbatim>\<open>specifications\<close>. The loop never reads \<^verbatim>\<open>result.name\<close>.
\<close>

definition same_read_fields :: "partial_record \<Rightarrow> partial_record \<Rightarrow> bool" where
  "same_read_fields a b \<longleftrightarrow>
     p_price a = p_price b \<and> p_rating a = p_rating b \<and>
     p_description a = p_description b \<and> p_availability a = p_availability b \<and>
     p_features a = p_features b \<and> p_images a = p_images b \<and>
     p_specifications a = p_specifications b"

section \<open>Strings and numbers of the runtime\<close>

text \<open>
  Strings are lists of bytes. \<open>toLowerCase\<close> maps the ASCII capitals to small letters and
  leaves every other byte alone; the case mappings of non-ASCII characters are not
  modelled. \<^verbatim>\<open>s.includes(t)\<close> holds when \<open>t\<close> occurs in \<open>s\<close> as a contiguous block.
\<close>

definition lower_char :: "char \<Rightarrow> char" where
  "lower_char c =
     (let k = (of_char c :: nat) in if 65 \<le> k \<and> k \<le> 90 then char_of (k + 32) else c)"

definition toLowerCase :: "string \<Rightarrow> string" where
  "toLowerCase s = map lower_char s"

definition str_includes :: "string \<Rightarrow> string \<Rightarrow> bool" where
  "str_includes s t = sublist t s"

definition nl :: string where
  "nl = [CHR 0x0A]"

text \<open>\<^verbatim>\<open>xs.join(sep)\<close>.\<close>

fun join :: "string \<Rightarrow> string list \<Rightarrow> string" where
  "join sep [] = []"
| "join sep [x] = x"
| "join sep (x # y # ys) = x @ sep @ join sep (y # ys)"

text \<open>\<^verbatim>\<open>a || b\<close> on strings: the empty string is falsy.\<close>

definition or_else :: "string \<Rightarrow> string \<Rightarrow> string" where
  "or_else a b = (if a = [] then b else a)"

text \<open>The decimal digits of a natural number, as a template literal prints an integer.\<close>

definition digit :: "nat \<Rightarrow> char" where
  "digit d = char_of (48 + d)"

function show_nat :: "nat \<Rightarrow> string" where
  "show_nat n = (if n < 10 then [digit n] else show_nat (n div 10) @ [digit (n mod 10)])"
  by pat_completeness auto
termination
  by (relation "measure id") auto

declare show_nat.simps [simp del]

definition show_int :: "int \<Rightarrow> string" where
  "show_int i = (if i < 0 then ''-'' @ show_nat (nat (- i)) else show_nat (nat i))"

text \<open>
  A JavaScript number is an IEEE 754 binary64 value, and each arithmetic operation
  returns the exact result rounded to the nearest such value, ties to the one with an
  even significand. Numbers are rationals here, and \<open>binary64\<close> is that rounding:
  \<open>binade x\<close> is the exponent \<open>e\<close> with \<open>2 powi e \<le> x < 2 powi (e + 1)\<close>, and the values
  near \<open>x\<close> are the multiples of \<open>ulp x\<close> (53 significant bits, and the fixed spacing
  \<open>2 powi (- 1074)\<close> in the subnormal range). Overflow to infinity is left out: no number
  here reaches \<open>2 powi 1024\<close>.
\<close>

definition binade :: "rat \<Rightarrow> int" where
  "binade x = (if 1 \<le> x then bitlen \<lfloor>x\<rfloor> - 1 else - bitlen (\<lceil>1 / x\<rceil> - 1))"

definition ulp :: "rat \<Rightarrow> rat" where
  "ulp x = 2 powi (max (binade \<bar>x\<bar>) (- 1022) - 52)"

definition nearest_even :: "rat \<Rightarrow> int" where
  "nearest_even q =
     (let n = \<lfloor>q\<rfloor>; f = q - of_int n
      in if f < 1 / 2 then n else if 1 / 2 < f then n + 1 else if even n then n else n + 1)"

definition binary64 :: "rat \<Rightarrow> rat" where
  "binary64 x = (if x = 0 then 0 else of_int (nearest_even (x / ulp x)) * ulp x)"

text \<open>What \<^verbatim>\<open>Math.random()\<close> can return: a binary64 value in \<open>[0, 1)\<close>.\<close>

definition random_draw :: "rat \<Rightarrow> bool" where
  "random_draw r \<longleftrightarrow> binary64 r = r \<and> 0 \<le> r \<and> r < 1"

text \<open>
  \<^verbatim>\<open>x.toFixed(1)\<close> for \<open>x \<ge> 0\<close>: the integer \<open>n\<close> for which \<open>n / 10\<close> is nearest to the
  exact value of \<open>x\<close> (the larger one on a tie), printed with one digit after the point.
\<close>

definition tenths :: "rat \<Rightarrow> nat" where
  "tenths x = nat \<lfloor>x * 10 + 1 / 2\<rfloor>"

definition toFixed1 :: "rat \<Rightarrow> string" where
  "toFixed1 x = show_nat (tenths x div 10) @ ''.'' @ show_nat (tenths x mod 10)"

section \<open>The fallback data generator\<close>

definition isPhone :: "string \<Rightarrow> bool" where
  "isPhone productName \<longleftrightarrow>
     str_includes (toLowerCase productName) ''phone'' \<or>
     str_includes (toLowerCase productName) ''iphone'' \<or>
     str_includes (toLowerCase productName) ''galaxy''"

definition isLaptop :: "string \<Rightarrow> bool" where
  "isLaptop productName \<longleftrightarrow>
     str_includes (toLowerCase productName) ''laptop'' \<or>
     str_includes (toLowerCase productName) ''macbook'' \<or>
     str_includes (toLowerCase productName) ''thinkpad''"

text \<open>
  \<^verbatim>\<open>`$${Math.floor(Math.random() * width + base)}.99`\<close>, with \<open>r\<close> the random draw: the
  product is rounded, then the sum.
\<close>

definition random_price :: "rat \<Rightarrow> rat \<Rightarrow> rat \<Rightarrow> string" where
  "random_price r width base =
     ''$'' @ show_int \<lfloor>binary64 (binary64 (r * width) + base)\<rfloor> @ ''.99''"

text \<open>\<^verbatim>\<open>`${(Math.random() * 1.5 + 3.5).toFixed(1)}/5 (estimated)`\<close>.\<close>

definition random_rating :: "rat \<Rightarrow> string" where
  "random_rating r = toFixed1 (binary64 (binary64 (r * (3 / 2)) + 7 / 2)) @ ''/5 (estimated)''"

text \<open>
  \<open>createIntelligentFallback productName r1 r2\<close>: \<open>r1\<close> and \<open>r2\<close> are the values of the
  two calls of \<^verbatim>\<open>Math.random()\<close>, the one for the price first. The object has no
  \<^verbatim>\<open>images\<close> field.
\<close>

definition createIntelligentFallback :: "string \<Rightarrow> rat \<Rightarrow> rat \<Rightarrow> partial_record" where
  "createIntelligentFallback productName r1 r2 =
     (if isPhone productName then
        \<lparr>p_name = Some productName,
         p_price = Some (random_price r1 800 400),
         p_rating = Some (random_rating r2),
         p_features = Some
           [''Advanced smartphone capabilities'',
            ''High-quality camera system'',
            ''5G wireless connectivity'',
            ''Premium touchscreen interface'',
            ''Comprehensive app ecosystem''],
         p_description = Some (productName @
           '' - Advanced smartphone with intelligent analysis when direct scraping is unavailable.''),
         p_availability = Some ''Available at major retailers'',
         p_images = None,
         p_specifications = Some
           [(''Type'', ''Smartphone''),
            (''Category'', ''Mobile Device''),
            (''Screen Size'', ''6.1-6.8 inches''),
            (''Storage'', ''128GB-1TB options''),
            (''Data Source'', ''Intelligent estimation'')]\<rparr>
      else if isLaptop productName then
        \<lparr>p_name = Some productName,
         p_price = Some (random_price r1 1500 500),
         p_rating = Some (random_rating r2),
         p_features = Some
           [''High-performance computing'',
            ''Portable design'',
            ''Long battery life'',
            ''Professional-grade display'',
            ''Advanced connectivity options''],
         p_description = Some (productName @
           '' - Professional laptop with intelligent analysis when direct scraping is unavailable.''),
         p_availability = Some ''Available at major retailers'',
         p_images = None,
         p_specifications = Some
           [(''Type'', ''Laptop Computer''),
            (''Category'', ''Computing Device''),
            (''Screen Size'', ''13-16 inches''),
            (''Processor'', ''Latest generation''),
            (''Data Source'', ''Intelligent estimation'')]\<rparr>
      else
        \<lparr>p_name = Some productName,
         p_price = Some (random_price r1 500 100),
         p_rating = Some (random_rating r2),
         p_features = Some
           [''Quality product features'', ''Reliable performance'', ''User-friendly design'',
            ''Good value proposition''],
         p_description = Some (productName @
           '' - Quality product with intelligent analysis when direct scraping is unavailable.''),
         p_availability = Some ''Check retailer availability'',
         p_images = None,
         p_specifications = Some
           [(''Product'', productName),
            (''Category'', ''Consumer Product''),
            (''Data Source'', ''Intelligent estimation'')]\<rparr>)"

subsection \<open>The categories of the specification\<close>

text \<open>
  A name is phone-like when its lower-case form contains one of the phone keywords,
  else laptop-like when it contains one of the laptop keywords, else generic.
\<close>

datatype category = Phone_like | Laptop_like | Generic

definition phone_keywords :: "string list" where
  "phone_keywords = [''phone'', ''iphone'', ''galaxy'']"

definition laptop_keywords :: "string list" where
  "laptop_keywords = [''laptop'', ''macbook'', ''thinkpad'']"

definition mentions :: "string \<Rightarrow> string list \<Rightarrow> bool" where
  "mentions productName keywords = list_ex (\<lambda>k. sublist k (toLowerCase productName)) keywords"

definition category_of :: "string \<Rightarrow> category" where
  "category_of productName =
     (if mentions productName phone_keywords then Phone_like
      else if mentions productName laptop_keywords then Laptop_like else Generic)"

fun category_features :: "category \<Rightarrow> string list" where
  "category_features Phone_like =
     [''Advanced smartphone capabilities'', ''High-quality camera system'',
      ''5G wireless connectivity'', ''Premium touchscreen interface'',
      ''Comprehensive app ecosystem'']"
| "category_features Laptop_like =
     [''High-performance computing'', ''Portable design'', ''Long battery life'',
      ''Professional-grade display'', ''Advanced connectivity options'']"
| "category_features Generic =
     [''Quality product features'', ''Reliable performance'', ''User-friendly design'',
      ''Good value proposition'']"

fun category_specifications :: "category \<Rightarrow> string \<Rightarrow> js_object" where
  "category_specifications Phone_like productName =
     [(''Type'', ''Smartphone''), (''Category'', ''Mobile Device''),
      (''Screen Size'', ''6.1-6.8 inches''), (''Storage'', ''128GB-1TB options''),
      (''Data Source'', ''Intelligent estimation'')]"
| "category_specifications Laptop_like productName =
     [(''Type'', ''Laptop Computer''), (''Category'', ''Computing Device''),
      (''Screen Size'', ''13-16 inches''), (''Processor'', ''Latest generation''),
      (''Data Source'', ''Intelligent estimation'')]"
| "category_specifications Generic productName =
     [(''Product'', productName), (''Category'', ''Consumer Product''),
      (''Data Source'', ''Intelligent estimation'')]"

text \<open>The least and the greatest whole-dollar price of a category.\<close>

fun price_low :: "category \<Rightarrow> int" where
  "price_low Phone_like = 400"
| "price_low Laptop_like = 500"
| "price_low Generic = 100"

fun price_high :: "category \<Rightarrow> int" where
  "price_high Phone_like = 1200"
| "price_high Laptop_like = 1999"
| "price_high Generic = 600"

section \<open>Values, the logger and the effects of a request\<close>

text \<open>A value decoded from JSON, or \<^verbatim>\<open>undefined\<close> for a field the body leaves out.\<close>

datatype jsval =
    JUndefined
  | JNull
  | JBool bool
  | JNumber rat
  | JString string
  | JArray "jsval list"
  | JObject "(string \<times> jsval) list"

datatype log_level = Info | Warn | Error

record log_entry =
  level :: log_level
  message :: string
  context_data :: jsval

text \<open>
  Modelled from the spec: the class \<^verbatim>\<open>MaximLogger\<close> of \<^verbatim>\<open>lib/maxim-logger\<close>, which the
  endpoint imports and which is not among the sources. The specification describes the log
  as an ordered, append-only sequence of entries with a level, a message and optional
  structured context (\<open>JUndefined\<close> when there is none), exposed verbatim in responses:
  \<^verbatim>\<open>info\<close>, \<^verbatim>\<open>warn\<close> and \<^verbatim>\<open>error\<close> add one entry at the end.
\<close>

definition logger_add :: "log_level \<Rightarrow> string \<Rightarrow> jsval \<Rightarrow> log_entry list \<Rightarrow> log_entry list" where
  "logger_add lv msg ctx entries = entries @ [\<lparr>level = lv, message = msg, context_data = ctx\<rparr>]"

text \<open>
  Modelled from the spec: \<^verbatim>\<open>getLogs\<close> of the same class. The entries are exposed
  verbatim, as a copy taken at the time of the call.
\<close>

definition getLogs :: "log_entry list \<Rightarrow> log_entry list" where
  "getLogs entries = entries"

text \<open>
  The calls the endpoint makes to its collaborators: \<^verbatim>\<open>scraper.scrapeProduct(productName)\<close>
  on a scraper of the given class, and \<^verbatim>\<open>generateText\<close>.
\<close>

datatype call = Scrape string string | GenerateText

text \<open>
  What a run reads and writes beyond its arguments: the entries of the module-level
  \<^verbatim>\<open>logger\<close> (line 9 creates it once, when the module is loaded), the calls made so far,
  and the number of values drawn from \<^verbatim>\<open>Math.random()\<close>.
\<close>

record run_state =
  logs :: "log_entry list"
  calls :: "call list"
  randoms :: nat

definition log_info :: "string \<Rightarrow> jsval \<Rightarrow> run_state \<Rightarrow> run_state" where
  "log_info msg ctx s = s\<lparr>logs := logger_add Info msg ctx (logs s)\<rparr>"

definition log_warn :: "string \<Rightarrow> jsval \<Rightarrow> run_state \<Rightarrow> run_state" where
  "log_warn msg ctx s = s\<lparr>logs := logger_add Warn msg ctx (logs s)\<rparr>"

definition log_error :: "string \<Rightarrow> jsval \<Rightarrow> run_state \<Rightarrow> run_state" where
  "log_error msg ctx s = s\<lparr>logs := logger_add Error msg ctx (logs s)\<rparr>"

text \<open>
  A thrown value, as the handlers look at it:
  \<^verbatim>\<open>error instanceof Error ? error.message : "Unknown error"\<close>.
\<close>

datatype thrown = ErrorObject string | OtherValue

fun error_message :: "thrown \<Rightarrow> string" where
  "error_message (ErrorObject m) = m"
| "error_message OtherValue = ''Unknown error''"

text \<open>
  A scraper is a collaborator: its class name and what \<^verbatim>\<open>scrapeProduct\<close> does, which may
  depend on the calls made before. The promise resolves to data (\<open>None\<close> for a falsy
  value) or rejects; the scraper holds the logger and may add entries of its own.
  Constructing a scraper is taken to have no effect.
\<close>

datatype scrape_outcome = Resolves "partial_record option" | Rejects thrown

record scrape_result =
  scraper_logs :: "log_entry list"
  outcome :: scrape_outcome

record scraper =
  constructor_name :: string
  scrapeProduct :: "call list \<Rightarrow> string \<Rightarrow> scrape_result"

datatype llm_outcome = Generated string | Failed thrown

text \<open>
  Everything outside the endpoint: the environment variable, the stream of random draws,
  the three scraper classes, the two model calls (as functions of the data their prompts
  are built from) and the message of the \<^verbatim>\<open>TypeError\<close> the runtime raises when
  \<^verbatim>\<open>includes\<close> is called on a value that has no such method.
\<close>

record world =
  OPENAI_API_KEY :: "string option"
  Math_random :: "nat \<Rightarrow> rat"
  ScrapybaraBrowser :: "call list \<Rightarrow> string \<Rightarrow> scrape_result"
  PlaywrightScraper :: "call list \<Rightarrow> string \<Rightarrow> scrape_result"
  PuppeteerScraper :: "call list \<Rightarrow> string \<Rightarrow> scrape_result"
  generateText_comparison :: "product_record \<Rightarrow> product_record \<Rightarrow> llm_outcome"
  generateText_readme :: "product_record \<Rightarrow> product_record \<Rightarrow> string \<Rightarrow> llm_outcome"
  includes_TypeError :: "jsval \<Rightarrow> string"

section \<open>The per-product aggregator\<close>

text \<open>A call of \<open>createIntelligentFallback\<close> takes the next two random draws.\<close>

definition fallback_data :: "world \<Rightarrow> string \<Rightarrow> run_state \<Rightarrow> partial_record \<times> run_state" where
  "fallback_data w productName s =
     (createIntelligentFallback productName
        (Math_random w (randoms s)) (Math_random w (randoms s + 1)),
      s\<lparr>randoms := randoms s + 2\<rparr>)"

text \<open>One iteration of \<^verbatim>\<open>for (const scraper of scrapers)\<close>, with its try and catch.\<close>

fun scrape_step ::
  "world \<Rightarrow> string \<Rightarrow> partial_record list \<times> run_state \<Rightarrow> scraper \<Rightarrow>
   partial_record list \<times> run_state" where
  "scrape_step w productName (results, s) scraper =
     (let s1 = log_info
                 (''Starting intelligent '' @ constructor_name scraper @ '' for '' @ productName)
                 JUndefined s;
          r = scrapeProduct scraper (calls s1) productName;
          s2 = s1\<lparr>logs := logs s1 @ scraper_logs r,
                  calls := calls s1 @ [Scrape (constructor_name scraper) productName]\<rparr>
      in case outcome r of
           Resolves None \<Rightarrow> (results, s2)
         | Resolves (Some data) \<Rightarrow>
             (results @ [data],
              log_info
                (''Intelligent '' @ constructor_name scraper @ '' completed for '' @ productName)
                JUndefined s2)
         | Rejects e \<Rightarrow>
             (let s3 = log_warn
                         (''Scraper '' @ constructor_name scraper @
                          '' had issues, using fallback data'')
                         (JObject [(''product'', JString productName),
                                   (''error'', JString (error_message e))])
                         s2;
                  fb = fallback_data w productName s3
              in (results @ [fst fb], snd fb)))"

declare scrape_step.simps [simp del]

text \<open>The loop and the guard \<^verbatim>\<open>if (results.length === 0)\<close> after it: the accumulator
  that is handed to the merge.\<close>

definition collect_results ::
  "world \<Rightarrow> string \<Rightarrow> scraper list \<Rightarrow> run_state \<Rightarrow> partial_record list \<times> run_state" where
  "collect_results w productName scrapers s =
     (let acc = foldl (scrape_step w productName) ([], s) scrapers
      in if length (fst acc) = 0 then
           (let s1 = log_info (''Creating intelligent fallback data for '' @ productName)
                       JUndefined (snd acc);
                fb = fallback_data w productName s1
            in (fst acc @ [fst fb], snd fb))
         else acc)"

definition scrapeProductDataWithFallback ::
  "world \<Rightarrow> string \<Rightarrow> scraper list \<Rightarrow> run_state \<Rightarrow> product_record \<times> run_state" where
  "scrapeProductDataWithFallback w productName scrapers s =
     (let acc = collect_results w productName scrapers s
      in (mergeProductData (fst acc) productName, snd acc))"

text \<open>What the outcome of a source is for the aggregator.\<close>

fun source_fails :: "scrape_outcome \<Rightarrow> bool" where
  "source_fails (Resolves None) = True"
| "source_fails (Resolves (Some d)) = False"
| "source_fails (Rejects e) = True"

section \<open>The comparison and document generators\<close>

text \<open>
  \<^verbatim>\<open>product.features?.map((feature) => `- ${feature}`).join("\n") || "- Features not available"\<close>
\<close>

definition feature_line :: "string \<Rightarrow> string" where
  "feature_line feature = ''- '' @ feature"

definition feature_lines :: "string list \<Rightarrow> string" where
  "feature_lines fs = or_else (join nl (map feature_line fs)) ''- Features not available''"

text \<open>
  \<^verbatim>\<open>Object.entries(product.specifications || {}).map(([key, value]) => `- **${key}**: ${value}`)\<close>
  \<^verbatim>\<open>.join("\n") || "- Specifications not available"\<close>
\<close>

fun specification_line :: "string \<times> string \<Rightarrow> string" where
  "specification_line (k, v) = ''- **'' @ k @ ''**: '' @ v"

definition specification_lines :: "js_object \<Rightarrow> string" where
  "specification_lines sp =
     or_else (join nl (map specification_line sp)) ''- Specifications not available''"

text \<open>The template literals, one list element for each line.\<close>

definition generateIntelligentFallbackComparison ::
  "product_record \<Rightarrow> product_record \<Rightarrow> string" where
  "generateIntelligentFallbackComparison p1 p2 = join nl
     [''# Product Comparison Analysis'',
      [],
      ''## '' @ name p1 @ '' vs '' @ name p2,
      [],
      ''### Price Comparison'',
      ''- **'' @ name p1 @ ''**: '' @ or_else (price p1) ''Price not available'',
      ''- **'' @ name p2 @ ''**: '' @ or_else (price p2) ''Price not available'',
      [],
      ''### Key Features Analysis'',
      [],
      ''#### '' @ name p1 @ '' Features:'',
      feature_lines (features p1),
      [],
      ''#### '' @ name p2 @ '' Features:'',
      feature_lines (features p2),
      [],
      ''### Specifications Comparison'',
      [],
      ''#### '' @ name p1 @ '':'',
      specification_lines (specifications p1),
      [],
      ''#### '' @ name p2 @ '':'',
      specification_lines (specifications p2),
      [],
      ''### Availability'',
      ''- **'' @ name p1 @ ''**: '' @ or_else (availability p1) ''Availability unknown'',
      ''- **'' @ name p2 @ ''**: '' @ or_else (availability p2) ''Availability unknown'',
      [],
      ''### Recommendation'',
      ''Based on the available data, both products offer unique advantages. Consider your specific needs, budget, and feature requirements when making a decision.'',
      [],
      ''*Note: This comparison was generated using intelligent fallback analysis due to API limitations. For the most accurate and detailed comparison, please ensure your OpenAI API key is properly configured.*'']"

definition generateIntelligentFallbackReadme ::
  "product_record \<Rightarrow> product_record \<Rightarrow> string \<Rightarrow> string" where
  "generateIntelligentFallbackReadme p1 p2 comparison = join nl
     [''# Product Comparison: '' @ name p1 @ '' vs '' @ name p2,
      [],
      ''## Overview'',
      ''This document provides a comprehensive comparison between '' @ name p1 @ '' and '' @ name p2 @ '', analyzing their features, specifications, pricing, and overall value proposition.'',
      [],
      ''## Product Specifications'',
      [],
      ''### '' @ name p1,
      ''- **Price**: '' @ or_else (price p1) ''Not available'',
      ''- **Rating**: '' @ or_else (rating p1) ''Not available'',
      ''- **Availability**: '' @ or_else (availability p1) ''Not available'',
      [],
      ''### '' @ name p2,
      ''- **Price**: '' @ or_else (price p2) ''Not available'',
      ''- **Rating**: '' @ or_else (rating p2) ''Not available'',
      ''- **Availability**: '' @ or_else (availability p2) ''Not available'',
      [],
      ''## Feature Comparison'',
      [],
      ''### '' @ name p1 @ '' Features'',
      feature_lines (features p1),
      [],
      ''### '' @ name p2 @ '' Features'',
      feature_lines (features p2),
      [],
      ''## Detailed Analysis'',
      [],
      comparison,
      [],
      ''## Conclusion and Recommendations'',
      [],
      ''Both products have their unique strengths and target different user needs. Consider the following factors when making your decision:'',
      [],
      ''1. **Budget**: Compare the pricing and value proposition'',
      ''2. **Features**: Identify which features are most important to you'',
      ''3. **Availability**: Check current stock and shipping options'',
      ''4. **Reviews**: Consider user ratings and feedback'',
      [],
      ''## Data Sources and Methodology'',
      [],
      ''This comparison was generated using:'',
      ''- Multi-source data aggregation'',
      ''- Intelligent browser automation'',
      ''- AI-powered analysis and comparison'',
      ''- Real-time product information gathering'',
      [],
      ''*Note: This README was generated using intelligent fallback analysis. For enhanced AI-powered insights, please ensure your OpenAI API key is properly configured.*'',
      [],
      ''---'',
      [],
      ''Generated by AI Product Comparison Agent'']"

definition generateComparisonWithFallback ::
  "world \<Rightarrow> product_record \<Rightarrow> product_record \<Rightarrow> run_state \<Rightarrow> string \<times> run_state" where
  "generateComparisonWithFallback w p1 p2 s =
     (let s1 = log_info ''Attempting to generate AI comparison using OpenAI'' JUndefined s;
          s2 = s1\<lparr>calls := calls s1 @ [GenerateText]\<rparr>
      in case generateText_comparison w p1 p2 of
           Generated text \<Rightarrow>
             (text, log_info ''AI comparison generated successfully'' JUndefined s2)
         | Failed e \<Rightarrow>
             (generateIntelligentFallbackComparison p1 p2,
              log_error ''Failed to generate AI comparison''
                (JObject [(''error'', JString (error_message e))]) s2))"

definition generateReadmeWithFallback ::
  "world \<Rightarrow> product_record \<Rightarrow> product_record \<Rightarrow> string \<Rightarrow> run_state \<Rightarrow> string \<times> run_state" where
  "generateReadmeWithFallback w p1 p2 comparison s =
     (let s1 = log_info ''Attempting to generate README using OpenAI'' JUndefined s;
          s2 = s1\<lparr>calls := calls s1 @ [GenerateText]\<rparr>
      in case generateText_readme w p1 p2 comparison of
           Generated text \<Rightarrow> (text, log_info ''README generated successfully'' JUndefined s2)
         | Failed e \<Rightarrow>
             (generateIntelligentFallbackReadme p1 p2 comparison,
              log_error ''Failed to generate README''
                (JObject [(''error'', JString (error_message e))]) s2))"

section \<open>The request orchestrator\<close>

text \<open>
  The decoded body of the request. A product name is a string or is missing; names of
  other JSON types are outside the model. \<^verbatim>\<open>methods\<close> is any value.
\<close>

record request_body =
  product1 :: "string option"
  product2 :: "string option"
  methods :: jsval

text \<open>
  The JSON bodies the handler sends: \<^verbatim>\<open>{ error }\<close>, \<^verbatim>\<open>{ error, details, setup }\<close>,
  \<^verbatim>\<open>{ product1, product2, comparison, readme, logs }\<close> and \<^verbatim>\<open>{ error, details, logs }\<close>.
\<close>

datatype response_body =
    ErrorBody string
  | SetupBody string string string
  | ResultBody product_record product_record string string "log_entry list"
  | FailureBody string string "log_entry list"

record response =
  status :: nat
  body :: response_body

text \<open>\<^verbatim>\<open>!product1\<close> is false for a string that is not empty.\<close>

fun truthy :: "string option \<Rightarrow> bool" where
  "truthy None = False"
| "truthy (Some v) = (v \<noteq> [])"

text \<open>\<^verbatim>\<open>trim()\<close>, for the ASCII white space: space, tab, line feed, vertical tab, form
  feed and carriage return.\<close>

definition white_space :: "char \<Rightarrow> bool" where
  "white_space c = ((of_char c :: nat) \<in> {32, 9, 10, 11, 12, 13})"

definition trim :: "string \<Rightarrow> string" where
  "trim t = rev (dropWhile white_space (rev (dropWhile white_space t)))"

text \<open>The condition of the check of \<^verbatim>\<open>process.env.OPENAI_API_KEY\<close>.\<close>

fun key_not_configured :: "string option \<Rightarrow> bool" where
  "key_not_configured None = True"
| "key_not_configured (Some k) =
     (k = [] \<or> trim k = [] \<or> k = ''your_openai_api_key_here'')"

text \<open>
  \<^verbatim>\<open>methods.includes(x)\<close>: an array looks for an element equal to the string, a string
  looks for a substring, and any other value makes the call raise a \<^verbatim>\<open>TypeError\<close>.
\<close>

fun js_includes :: "world \<Rightarrow> jsval \<Rightarrow> string \<Rightarrow> thrown + bool" where
  "js_includes w (JArray xs) x = Inr (JString x \<in> set xs)"
| "js_includes w (JString t) x = Inr (str_includes t x)"
| "js_includes w v x = Inl (ErrorObject (includes_TypeError w v))"

text \<open>Lines 44 to 56: the scrapers of the selected methods, in the fixed order.\<close>

definition select_scrapers :: "world \<Rightarrow> jsval \<Rightarrow> thrown + scraper list" where
  "select_scrapers w ms =
     (case js_includes w ms ''scrapybara'' of
        Inl e \<Rightarrow> Inl e
      | Inr b1 \<Rightarrow>
     (case js_includes w ms ''playwright'' of
        Inl e \<Rightarrow> Inl e
      | Inr b2 \<Rightarrow>
     (case js_includes w ms ''puppeteer'' of
        Inl e \<Rightarrow> Inl e
      | Inr b3 \<Rightarrow>
          Inr ((if b1 then [\<lparr>constructor_name = ''ScrapybaraBrowser'',
                              scrapeProduct = ScrapybaraBrowser w\<rparr>] else []) @
               (if b2 then [\<lparr>constructor_name = ''PlaywrightScraper'',
                              scrapeProduct = PlaywrightScraper w\<rparr>] else []) @
               (if b3 then [\<lparr>constructor_name = ''PuppeteerScraper'',
                              scrapeProduct = PuppeteerScraper w\<rparr>] else [])))))"

text \<open>The catch block of \<open>POST\<close>.\<close>

definition catch_block :: "thrown \<Rightarrow> run_state \<Rightarrow> response \<times> run_state" where
  "catch_block e s =
     (let s1 = log_error ''Error in product comparison''
                 (JObject [(''error'', JString (error_message e))]) s
      in (\<lparr>status = 500,
           body = FailureBody
             ''Failed to compare products. Please check your configuration and try again.''
             (error_message e) (getLogs (logs s1))\<rparr>,
          s1))"

text \<open>Lines 62 to 87: the request once the scrapers are there.\<close>

definition compare_products ::
  "world \<Rightarrow> string \<Rightarrow> string \<Rightarrow> scraper list \<Rightarrow> run_state \<Rightarrow> response \<times> run_state" where
  "compare_products w n1 n2 scrapers s =
     (let d1 = scrapeProductDataWithFallback w n1 scrapers s;
          d2 = scrapeProductDataWithFallback w n2 scrapers (snd d1);
          s3 = log_info ''Intelligent browser automation completed''
                 (JObject [(''product1Features'', JNumber (of_nat (length (features (fst d1))))),
                           (''product2Features'', JNumber (of_nat (length (features (fst d2)))))])
                 (snd d2);
          c = generateComparisonWithFallback w (fst d1) (fst d2) s3;
          r = generateReadmeWithFallback w (fst d1) (fst d2) (fst c) (snd c);
          result = ResultBody (fst d1) (fst d2) (fst c) (fst r) (getLogs (logs (snd r)));
          s6 = log_info ''Product comparison completed successfully'' JUndefined (snd r)
      in (\<lparr>status = 200, body = result\<rparr>, s6))"

definition setup_steps :: string where
  "setup_steps = join nl
     [''1. Go to https://platform.openai.com/api-keys'',
      ''2. Create a new API key'',
      ''3. Copy the key to your .env file: OPENAI_API_KEY=sk-proj-your-new-key'',
      ''4. Restart the development server'']"

text \<open>
  \<open>POST\<close>. The first argument after the world is the result of \<^verbatim>\<open>await request.json()\<close>:
  the decoded body, or the value thrown for a body that does not parse.
\<close>

definition POST :: "world \<Rightarrow> thrown + request_body \<Rightarrow> run_state \<Rightarrow> response \<times> run_state" where
  "POST w request s =
     (case request of
        Inl e \<Rightarrow> catch_block e s
      | Inr b \<Rightarrow>
          if \<not> truthy (product1 b) \<or> \<not> truthy (product2 b) then
            (\<lparr>status = 400, body = ErrorBody ''Both product names are required''\<rparr>, s)
          else if key_not_configured (OPENAI_API_KEY w) then
            (\<lparr>status = 500,
              body = SetupBody ''OpenAI API key not configured''
                ''Please add a valid OPENAI_API_KEY to your .env file'' setup_steps\<rparr>,
             log_error ''OpenAI API key not configured properly'' JUndefined s)
          else
            (let n1 = (case product1 b of Some n \<Rightarrow> n | None \<Rightarrow> []);
                 n2 = (case product2 b of Some n \<Rightarrow> n | None \<Rightarrow> []);
                 s1 = log_info
                        ''Starting product comparison with intelligent browser automation''
                        (JObject [(''product1'', JString n1), (''product2'', JString n2),
                                  (''methods'', methods b)])
                        s
             in case select_scrapers w (methods b) of
                  Inl e \<Rightarrow> catch_block e s1
                | Inr scrapers \<Rightarrow>
                    if length scrapers = 0 then
                      (\<lparr>status = 400, body = ErrorBody ''No valid scraping methods selected''\<rparr>,
                       s1)
                    else compare_products w n1 n2 scrapers s1))"

text \<open>The \<^verbatim>\<open>logs\<close> field of a response body, when it has one.\<close>

fun response_logs :: "response_body \<Rightarrow> log_entry list option" where
  "response_logs (ErrorBody e) = None"
| "response_logs (SetupBody e d t) = None"
| "response_logs (ResultBody a b c r l) = Some l"
| "response_logs (FailureBody e d l) = Some l"

text \<open>The values of \<^verbatim>\<open>methods\<close> that have an \<^verbatim>\<open>includes\<close> method: arrays and strings.\<close>

fun has_includes :: "jsval \<Rightarrow> bool" where
  "has_includes (JArray xs) = True"
| "has_includes (JString t) = True"
| "has_includes v = False"

section \<open>What the fallback texts render\<close>

text \<open>
  The lines of the fallback comparison that show a product: its name, its price line, a
  line for each feature, a line for each specification entry and its availability line.
  An empty field shows the placeholder of the template instead.
\<close>

definition comparison_renders :: "product_record \<Rightarrow> string \<Rightarrow> bool" where
  "comparison_renders p text \<longleftrightarrow>
     sublist (name p) text \<and>
     sublist (''- **'' @ name p @ ''**: '' @
              (if price p = [] then ''Price not available'' else price p)) text \<and>
     (if features p = [] then sublist ''- Features not available'' text
      else list_all (\<lambda>f. sublist (''- '' @ f) text) (features p)) \<and>
     (if specifications p = [] then sublist ''- Specifications not available'' text
      else list_all (\<lambda>(k, v). sublist (''- **'' @ k @ ''**: '' @ v) text) (specifications p)) \<and>
     sublist (''- **'' @ name p @ ''**: '' @
              (if availability p = [] then ''Availability unknown'' else availability p)) text"

text \<open>The lines of the fallback document that show a product.\<close>

definition readme_renders :: "product_record \<Rightarrow> string \<Rightarrow> bool" where
  "readme_renders p text \<longleftrightarrow>
     sublist (''### '' @ name p) text \<and>
     sublist (''- **Price**: '' @ (if price p = [] then ''Not available'' else price p)) text \<and>
     sublist (''- **Rating**: '' @ (if rating p = [] then ''Not available'' else rating p)) text \<and>
     sublist (''- **Availability**: '' @
              (if availability p = [] then ''Not available'' else availability p)) text \<and>
     (if features p = [] then sublist ''- Features not available'' text
      else list_all (\<lambda>f. sublist (''- '' @ f) text) (features p))"

section \<open>Concrete inputs\<close>

text \<open>A module that has handled no request yet.\<close>

definition initial_state :: run_state where
  "initial_state = \<lparr>logs = [], calls = [], randoms = 0\<rparr>"

text \<open>A scraper that adds no log entry of its own and always ends the same way.\<close>

definition quiet :: "scrape_outcome \<Rightarrow> call list \<Rightarrow> string \<Rightarrow> scrape_result" where
  "quiet out history productName = \<lparr>scraper_logs = [], outcome = out\<rparr>"

text \<open>
  A deployment with a key, in which the first scraper throws, the second returns
  \<^verbatim>\<open>null\<close>, the third returns record B of scenario 3, and both model calls fail.
\<close>

definition demo_world :: world where
  "demo_world =
     \<lparr>OPENAI_API_KEY = Some ''sk-proj-demo'',
      Math_random = (\<lambda>i. 1 / 2),
      ScrapybaraBrowser = quiet (Rejects (ErrorObject ''Session could not be started'')),
      PlaywrightScraper = quiet (Resolves None),
      PuppeteerScraper = quiet (Resolves (Some scenario3_B)),
      generateText_comparison = (\<lambda>p1 p2. Failed (ErrorObject ''Quota exceeded'')),
      generateText_readme = (\<lambda>p1 p2 c. Failed (ErrorObject ''Quota exceeded'')),
      includes_TypeError = (\<lambda>v. ''methods.includes is not a function'')\<rparr>"

definition demo_scrapybara :: scraper where
  "demo_scrapybara =
     \<lparr>constructor_name = ''ScrapybaraBrowser'', scrapeProduct = ScrapybaraBrowser demo_world\<rparr>"

definition demo_playwright :: scraper where
  "demo_playwright =
     \<lparr>constructor_name = ''PlaywrightScraper'', scrapeProduct = PlaywrightScraper demo_world\<rparr>"

definition demo_puppeteer :: scraper where
  "demo_puppeteer =
     \<lparr>constructor_name = ''PuppeteerScraper'', scrapeProduct = PuppeteerScraper demo_world\<rparr>"

definition demo_request :: "string \<Rightarrow> string \<Rightarrow> jsval \<Rightarrow> request_body" where
  "demo_request n1 n2 ms = \<lparr>product1 = Some n1, product2 = Some n2, methods = ms\<rparr>"

definition demo_lamp :: product_record where
  "demo_lamp =
     \<lparr>name = ''Desk Lamp'', price = [], rating = ''4.5/5'', features = [],
      description = ''Zen design'', availability = [], images = [''lamp.png''],
      specifications = []\<rparr>"

definition demo_phone :: product_record where
  "demo_phone =
     \<lparr>name = ''Pixel Phone'', price = ''$499.99'', rating = ''4.4/5'',
      features = [''5G wireless connectivity'', ''High-quality camera system''],
      description = ''A phone'', availability = ''In stock'', images = [],
      specifications = [(''Type'', ''Smartphone''), (''Storage'', ''128GB'')]\<rparr>"

section \<open>Lemmas about the merge\<close>

lemma first_nonempty_all_empty:
  "list_all (\<lambda>v. v = None \<or> v = Some []) vs \<Longrightarrow> first_nonempty vs = []"
  by (induction vs rule: first_nonempty.induct) auto

lemma first_nonempty_after_empty:
  "list_all (\<lambda>v. v = None \<or> v = Some []) us \<Longrightarrow> v \<noteq> [] \<Longrightarrow>
   first_nonempty (us @ Some v # vs) = v"
  by (induction us rule: first_nonempty.induct) auto

lemma foldl_merge_name: "name (foldl merge_result m rs) = name m"
  by (induction rs arbitrary: m) (simp_all add: merge_result_def)

lemma keep_first_nonempty: "cur \<noteq> [] \<Longrightarrow> keep_first cur v = cur"
  by (cases v) simp_all

lemma first_nonempty_keep:
  "first_nonempty (v # vs) =
     (if keep_first [] v = [] then first_nonempty vs else keep_first [] v)"
  by (cases v) simp_all

lemma foldl_merge_price:
  "price (foldl merge_result m rs) =
     (if price m = [] then first_nonempty (map p_price rs) else price m)"
proof (induction rs arbitrary: m)
  case Nil
  show ?case by simp
next
  case (Cons r rs)
  have step: "price (merge_result m r) = keep_first (price m) (p_price r)"
    by (simp add: merge_result_def)
  show ?case
  proof (cases "price m = []")
    case True
    then show ?thesis
      using Cons.IH [of "merge_result m r"] step
      by (simp add: first_nonempty_keep del: first_nonempty.simps)
  next
    case False
    then show ?thesis
      using Cons.IH [of "merge_result m r"] step by (simp add: keep_first_nonempty)
  qed
qed

lemma foldl_merge_rating:
  "rating (foldl merge_result m rs) =
     (if rating m = [] then first_nonempty (map p_rating rs) else rating m)"
proof (induction rs arbitrary: m)
  case Nil
  show ?case by simp
next
  case (Cons r rs)
  have step: "rating (merge_result m r) = keep_first (rating m) (p_rating r)"
    by (simp add: merge_result_def)
  show ?case
  proof (cases "rating m = []")
    case True
    then show ?thesis
      using Cons.IH [of "merge_result m r"] step
      by (simp add: first_nonempty_keep del: first_nonempty.simps)
  next
    case False
    then show ?thesis
      using Cons.IH [of "merge_result m r"] step by (simp add: keep_first_nonempty)
  qed
qed

lemma foldl_merge_description:
  "description (foldl merge_result m rs) =
     (if description m = [] then first_nonempty (map p_description rs) else description m)"
proof (induction rs arbitrary: m)
  case Nil
  show ?case by simp
next
  case (Cons r rs)
  have step: "description (merge_result m r) = keep_first (description m) (p_description r)"
    by (simp add: merge_result_def)
  show ?case
  proof (cases "description m = []")
    case True
    then show ?thesis
      using Cons.IH [of "merge_result m r"] step
      by (simp add: first_nonempty_keep del: first_nonempty.simps)
  next
    case False
    then show ?thesis
      using Cons.IH [of "merge_result m r"] step by (simp add: keep_first_nonempty)
  qed
qed

lemma foldl_merge_availability:
  "availability (foldl merge_result m rs) =
     (if availability m = [] then first_nonempty (map p_availability rs) else availability m)"
proof (induction rs arbitrary: m)
  case Nil
  show ?case by simp
next
  case (Cons r rs)
  have step: "availability (merge_result m r) = keep_first (availability m) (p_availability r)"
    by (simp add: merge_result_def)
  show ?case
  proof (cases "availability m = []")
    case True
    then show ?thesis
      using Cons.IH [of "merge_result m r"] step
      by (simp add: first_nonempty_keep del: first_nonempty.simps)
  next
    case False
    then show ?thesis
      using Cons.IH [of "merge_result m r"] step by (simp add: keep_first_nonempty)
  qed
qed

text \<open>
  C1. Each scalar field of the merged record is the first non-empty value of that field
  in the input list, scanned in order, and the empty string when no input has one.
\<close>

theorem merge_scalar_first_nonempty:
  "price (mergeProductData rs n) = first_nonempty (map p_price rs) \<and>
   rating (mergeProductData rs n) = first_nonempty (map p_rating rs) \<and>
   description (mergeProductData rs n) = first_nonempty (map p_description rs) \<and>
   availability (mergeProductData rs n) = first_nonempty (map p_availability rs)"
  by (simp add: mergeProductData_def merged_init_def foldl_merge_price foldl_merge_rating
      foldl_merge_description foldl_merge_availability)

theorem merge_scalar_first_nonempty_witness:
  "price (mergeProductData [scenario3_A, scenario3_B] ''Widget'') = ''$10'' \<and>
   rating (mergeProductData [scenario3_A, scenario3_B] ''Widget'') = []"
  using merge_scalar_first_nonempty [of "[scenario3_A, scenario3_B]" "''Widget''"]
  by (simp add: scenario3_A_def scenario3_B_def)

lemma set_set_add: "set (set_add seen xs) = set seen \<union> set xs"
  by (induction xs arbitrary: seen) auto

lemma distinct_set_add: "distinct seen \<Longrightarrow> distinct (set_add seen xs)"
  by (induction xs arbitrary: seen) auto

lemma set_new_Set: "set (new_Set xs) = set xs"
  by (simp add: new_Set_def set_set_add)

lemma distinct_new_Set: "distinct (new_Set xs)"
  by (simp add: new_Set_def distinct_set_add)

lemma foldl_merge_features_set:
  "set (features (foldl merge_result m rs)) =
     set (features m) \<union> set (concat (map (listed \<circ> p_features) rs))"
proof (induction rs arbitrary: m)
  case Nil
  show ?case by simp
next
  case (Cons r rs)
  have step: "set (features (merge_result m r)) = set (features m) \<union> set (listed (p_features r))"
    by (cases "p_features r") (simp_all add: merge_result_def set_new_Set)
  show ?case
    using Cons.IH [of "merge_result m r"] step by auto
qed

lemma foldl_merge_features_distinct:
  "distinct (features m) \<Longrightarrow> distinct (features (foldl merge_result m rs))"
proof (induction rs arbitrary: m)
  case Nil
  then show ?case by simp
next
  case (Cons r rs)
  have "distinct (features (merge_result m r))"
    using Cons.prems by (cases "p_features r") (simp_all add: merge_result_def distinct_new_Set)
  then show ?case
    using Cons.IH [of "merge_result m r"] by simp
qed

lemma foldl_merge_images_set:
  "set (images (foldl merge_result m rs)) =
     set (images m) \<union> set (concat (map (listed \<circ> p_images) rs))"
proof (induction rs arbitrary: m)
  case Nil
  show ?case by simp
next
  case (Cons r rs)
  have step: "set (images (merge_result m r)) = set (images m) \<union> set (listed (p_images r))"
    by (cases "p_images r") (simp_all add: merge_result_def set_new_Set)
  show ?case
    using Cons.IH [of "merge_result m r"] step by auto
qed

lemma foldl_merge_images_distinct:
  "distinct (images m) \<Longrightarrow> distinct (images (foldl merge_result m rs))"
proof (induction rs arbitrary: m)
  case Nil
  then show ?case by simp
next
  case (Cons r rs)
  have "distinct (images (merge_result m r))"
    using Cons.prems by (cases "p_images r") (simp_all add: merge_result_def distinct_new_Set)
  then show ?case
    using Cons.IH [of "merge_result m r"] by simp
qed

text \<open>
  C2. The \<open>features\<close> and \<open>images\<close> of the merged record hold exactly the strings that
  occur in some input's list, each once: membership and number of elements are those of
  the union, so no input can remove what another one brings. This holds for every input
  list, the empty one included.
\<close>

theorem merge_union_fields:
  "set (features (mergeProductData rs n)) = set (concat (map (listed \<circ> p_features) rs)) \<and>
   distinct (features (mergeProductData rs n)) \<and>
   length (features (mergeProductData rs n)) =
     card (set (concat (map (listed \<circ> p_features) rs))) \<and>
   set (images (mergeProductData rs n)) = set (concat (map (listed \<circ> p_images) rs)) \<and>
   distinct (images (mergeProductData rs n)) \<and>
   length (images (mergeProductData rs n)) =
     card (set (concat (map (listed \<circ> p_images) rs)))"
proof -
  let ?m = "mergeProductData rs n"
  have fs: "set (features ?m) = set (concat (map (listed \<circ> p_features) rs))"
    by (simp add: mergeProductData_def merged_init_def foldl_merge_features_set)
  have fd: "distinct (features ?m)"
    by (simp add: mergeProductData_def merged_init_def foldl_merge_features_distinct)
  have iset: "set (images ?m) = set (concat (map (listed \<circ> p_images) rs))"
    by (simp add: mergeProductData_def merged_init_def foldl_merge_images_set)
  have idist: "distinct (images ?m)"
    by (simp add: mergeProductData_def merged_init_def foldl_merge_images_distinct)
  from fs fd have fl: "length (features ?m) = card (set (concat (map (listed \<circ> p_features) rs)))"
    using distinct_card [of "features ?m"] by simp
  from iset idist
  have il: "length (images ?m) = card (set (concat (map (listed \<circ> p_images) rs)))"
    using distinct_card [of "images ?m"] by simp
  from fs fd fl iset idist il show ?thesis by blast
qed

theorem merge_union_fields_witness:
  "set (features (mergeProductData
     [scenario3_A\<lparr>p_features := Some [''Dimmable'', ''USB port'']\<rparr>,
      scenario3_B\<lparr>p_features := Some [''USB port'', ''Touch switch'']\<rparr>] ''Widget'')) =
     {''Dimmable'', ''USB port'', ''Touch switch''} \<and>
   distinct (features (mergeProductData
     [scenario3_A\<lparr>p_features := Some [''Dimmable'', ''USB port'']\<rparr>,
      scenario3_B\<lparr>p_features := Some [''USB port'', ''Touch switch'']\<rparr>] ''Widget''))"
  using merge_union_fields
    [of "[scenario3_A\<lparr>p_features := Some [''Dimmable'', ''USB port'']\<rparr>,
          scenario3_B\<lparr>p_features := Some [''USB port'', ''Touch switch'']\<rparr>]" "''Widget''"]
  by auto

lemma map_of_rev_distinct: "distinct (map fst b) \<Longrightarrow> map_of (rev b) = map_of b"
proof (induction b)
  case Nil
  show ?case by simp
next
  case (Cons e b)
  obtain k v where e: "e = (k, v)" by (cases e)
  have k: "k \<notin> dom (map_of b)"
    using Cons.prems by (simp add: e dom_map_of_conv_image_fst)
  have "map_of (rev (e # b)) = [k \<mapsto> v] ++ map_of b"
    using Cons by (simp add: e)
  also have "\<dots> = (map_of b)(k \<mapsto> v)"
    using k by (auto simp add: fun_eq_iff map_add_def split: option.splits)
  finally show ?case by (simp add: e)
qed

lemma map_of_spread: "map_of (spread a b) = map_of a ++ map_of (rev b)"
proof (induction b arbitrary: a)
  case Nil
  show ?case by (simp add: spread_def)
next
  case (Cons e b)
  obtain k v where e: "e = (k, v)" by (cases e)
  have "spread a (e # b) = spread (AList.update k v a) b"
    by (simp add: spread_def e)
  then have "map_of (spread a (e # b)) = (map_of a)(k \<mapsto> v) ++ map_of (rev b)"
    using Cons.IH [of "AList.update k v a"] by (simp only: update_conv')
  also have "\<dots> = map_of a ++ ([k \<mapsto> v] ++ map_of (rev b))"
    by (auto simp add: fun_eq_iff map_add_def split: option.splits)
  finally show ?case by (simp add: e)
qed

lemma merge_result_specifications:
  "object_ok (p_specifications r) \<Longrightarrow>
   map_of (specifications (merge_result m r)) =
     map_of (specifications m) ++ spec_map (p_specifications r)"
  by (cases "p_specifications r")
     (simp_all add: merge_result_def map_of_spread map_of_rev_distinct)

lemma foldl_merge_specifications:
  "list_all (\<lambda>r. object_ok (p_specifications r)) rs \<Longrightarrow>
   map_of (specifications (foldl merge_result m rs)) =
     foldl (++) (map_of (specifications m)) (map (spec_map \<circ> p_specifications) rs)"
proof (induction rs arbitrary: m)
  case Nil
  show ?case by simp
next
  case (Cons r rs)
  from Cons.prems have r: "object_ok (p_specifications r)"
    and rs: "list_all (\<lambda>r. object_ok (p_specifications r)) rs"
    by simp_all
  show ?case
    using Cons.IH [OF rs, of "merge_result m r"] merge_result_specifications [OF r, of m]
    by simp
qed

text \<open>
  C3. When the \<open>specifications\<close> of every input is an object (no key twice), the merged
  \<open>specifications\<close>, read as a mapping, is the overlay of the inputs' mappings folded from
  the left, so that a later input's value replaces an earlier one on the same key. And
  scenario 3: record A with an empty price and the specifications Color: Red, then record
  B with the price $10 and the specifications Color: Blue, Size: M, merge to the price
  $10 and the specifications Color: Blue, Size: M.
\<close>

theorem merge_specifications_overlay:
  assumes "list_all (\<lambda>r. object_ok (p_specifications r)) rs"
  shows "map_of (specifications (mergeProductData rs n)) =
           foldl (++) Map.empty (map (spec_map \<circ> p_specifications) rs) \<and>
         price (mergeProductData [scenario3_A, scenario3_B] n) = ''$10'' \<and>
         specifications (mergeProductData [scenario3_A, scenario3_B] n) =
           [(''Color'', ''Blue''), (''Size'', ''M'')]"
proof -
  have general: "map_of (specifications (mergeProductData rs n)) =
      foldl (++) Map.empty (map (spec_map \<circ> p_specifications) rs)"
    using foldl_merge_specifications [OF assms, of "merged_init n"]
    by (simp add: mergeProductData_def merged_init_def)
  have p: "price (mergeProductData [scenario3_A, scenario3_B] n) = ''$10''"
    by (simp add: mergeProductData_def merged_init_def merge_result_def
        scenario3_A_def scenario3_B_def)
  have s: "specifications (mergeProductData [scenario3_A, scenario3_B] n) =
      [(''Color'', ''Blue''), (''Size'', ''M'')]"
    by (simp add: mergeProductData_def merged_init_def merge_result_def
        scenario3_A_def scenario3_B_def spread_def)
  from general p s show ?thesis by blast
qed

theorem merge_specifications_overlay_witness:
  "list_all (\<lambda>r. object_ok (p_specifications r)) [scenario3_A, scenario3_B] \<and>
   map_of (specifications (mergeProductData [scenario3_A, scenario3_B] ''Widget'')) =
     [''Color'' \<mapsto> ''Blue'', ''Size'' \<mapsto> ''M'']"
proof -
  have h: "list_all (\<lambda>r. object_ok (p_specifications r)) [scenario3_A, scenario3_B]"
    by (simp add: scenario3_A_def scenario3_B_def)
  have "map_of (specifications (mergeProductData [scenario3_A, scenario3_B] ''Widget'')) =
      foldl (++) Map.empty (map (spec_map \<circ> p_specifications) [scenario3_A, scenario3_B])"
    using merge_specifications_overlay [OF h, of "''Widget''"] by blast
  also have "\<dots> = [''Color'' \<mapsto> ''Blue'', ''Size'' \<mapsto> ''M'']"
    by (auto simp add: scenario3_A_def scenario3_B_def fun_eq_iff map_add_def)
  finally show ?thesis using h by blast
qed

lemma merge_result_same_read_fields:
  "same_read_fields a b \<Longrightarrow> merge_result m a = merge_result m b"
  by (simp add: same_read_fields_def merge_result_def)

lemma foldl_merge_same_read_fields:
  "list_all2 same_read_fields rs rs' \<Longrightarrow> foldl merge_result m rs = foldl merge_result m rs'"
proof (induction rs rs' arbitrary: m rule: list_all2_induct)
  case Nil
  show ?case by simp
next
  case (Cons a as b bs)
  then show ?case by (simp add: merge_result_same_read_fields)
qed

text \<open>
  C8. Two invocations of the merge on the same ordered list and the same product name
  return records that agree field for field. The merge reads nothing but its arguments
  (no logger entry, no random draw, no state of an earlier invocation), and of its inputs
  it reads only the seven merged fields: inputs that agree on those give the same output.
\<close>

theorem mergeProductData_deterministic:
  "(let first_run = mergeProductData rs n; second_run = mergeProductData rs n
    in name first_run = name second_run \<and> price first_run = price second_run \<and>
       rating first_run = rating second_run \<and> features first_run = features second_run \<and>
       description first_run = description second_run \<and>
       availability first_run = availability second_run \<and>
       images first_run = images second_run \<and>
       specifications first_run = specifications second_run) \<and>
   (list_all2 same_read_fields rs rs' \<longrightarrow> mergeProductData rs n = mergeProductData rs' n)"
  by (simp add: mergeProductData_def foldl_merge_same_read_fields)

theorem mergeProductData_deterministic_witness:
  "list_all2 same_read_fields [scenario3_A, scenario3_B]
     [scenario3_A\<lparr>p_name := Some ''Widget''\<rparr>, scenario3_B] \<and>
   mergeProductData [scenario3_A, scenario3_B] ''Widget'' =
     mergeProductData [scenario3_A\<lparr>p_name := Some ''Widget''\<rparr>, scenario3_B] ''Widget''"
proof -
  have h: "list_all2 same_read_fields [scenario3_A, scenario3_B]
     [scenario3_A\<lparr>p_name := Some ''Widget''\<rparr>, scenario3_B]"
    by (simp add: same_read_fields_def)
  from mergeProductData_deterministic
    [of "[scenario3_A, scenario3_B]" "''Widget''"
        "[scenario3_A\<lparr>p_name := Some ''Widget''\<rparr>, scenario3_B]"] h
  show ?thesis by blast
qed

section \<open>Rounding to binary64\<close>

lemma nearest_even_le: "q \<le> of_int N \<Longrightarrow> nearest_even q \<le> N"
proof -
  assume q: "q \<le> of_int N"
  then have n: "\<lfloor>q\<rfloor> \<le> N" by (simp add: floor_le_iff)
  show ?thesis
  proof (cases "\<lfloor>q\<rfloor> = N")
    case True
    with q have "q = of_int N"
      using of_int_floor_le [of q] by simp
    then show ?thesis by (simp add: nearest_even_def)
  next
    case False
    with n have "\<lfloor>q\<rfloor> + 1 \<le> N" by simp
    then show ?thesis by (simp add: nearest_even_def Let_def)
  qed
qed

lemma nearest_even_ge: "of_int N \<le> q \<Longrightarrow> N \<le> nearest_even q"
proof -
  assume "of_int N \<le> q"
  then have "N \<le> \<lfloor>q\<rfloor>" by (simp add: le_floor_iff)
  then show ?thesis by (simp add: nearest_even_def Let_def)
qed

lemma nearest_even_below_half: "q < of_int N + 1 / 2 \<Longrightarrow> nearest_even q \<le> N"
proof -
  assume q: "q < of_int N + 1 / 2"
  then have "q < of_int N + 1" by simp
  then have n: "\<lfloor>q\<rfloor> \<le> N" by (simp add: floor_le_iff)
  show ?thesis
  proof (cases "\<lfloor>q\<rfloor> = N")
    case True
    with q have "q - of_int \<lfloor>q\<rfloor> < 1 / 2" by simp
    with True show ?thesis by (simp add: nearest_even_def Let_def)
  next
    case False
    with n have "\<lfloor>q\<rfloor> + 1 \<le> N" by simp
    then show ?thesis by (simp add: nearest_even_def Let_def)
  qed
qed

lemma binade_bounds:
  assumes "0 < x"
  shows "2 powi binade x \<le> x \<and> x < 2 powi (binade x + 1)"
proof (cases "1 \<le> x")
  case True
  let ?m = "\<lfloor>x\<rfloor>"
  from True have m: "0 < ?m" by simp
  from bitlen_bounds [OF m] have lo: "2 ^ nat (bitlen ?m - 1) \<le> ?m"
    and hi: "?m < 2 ^ nat (bitlen ?m)" by simp_all
  from m have b: "1 \<le> bitlen ?m"
    using bitlen_eq_zero_iff [of ?m] bitlen_nonneg [of ?m] by linarith
  have "(2::rat) powi (bitlen ?m - 1) = of_int (2 ^ nat (bitlen ?m - 1))"
    using b by (simp add: power_int_def)
  also have "\<dots> \<le> of_int ?m" using lo by (simp only: of_int_le_iff)
  also have "\<dots> \<le> x" by simp
  finally have 1: "2 powi (bitlen ?m - 1) \<le> x" .
  from hi have "?m + 1 \<le> 2 ^ nat (bitlen ?m)" by simp
  then have "(of_int (?m + 1) :: rat) \<le> of_int (2 ^ nat (bitlen ?m))"
    by (simp only: of_int_le_iff)
  moreover have "x < of_int (?m + 1)" using floor_correct [of x] by simp
  ultimately have "x < of_int (2 ^ nat (bitlen ?m))" by linarith
  also have "\<dots> = (2::rat) powi (bitlen ?m)"
    using b by (simp add: power_int_def)
  finally have 2: "x < 2 powi (bitlen ?m - 1 + 1)" by simp
  from 1 2 True show ?thesis by (simp add: binade_def)
next
  case False
  let ?y = "1 / x"
  let ?m = "\<lceil>?y\<rceil> - 1"
  from False assms have y: "1 < ?y" by simp
  then have m: "0 < ?m" by (simp add: less_ceiling_iff)
  from bitlen_bounds [OF m] have lo: "2 ^ nat (bitlen ?m - 1) \<le> ?m"
    and hi: "?m < 2 ^ nat (bitlen ?m)" by simp_all
  from m have b: "1 \<le> bitlen ?m"
    using bitlen_eq_zero_iff [of ?m] bitlen_nonneg [of ?m] by linarith
  have "?y \<le> of_int (?m + 1)" by simp
  also from hi have "?m + 1 \<le> 2 ^ nat (bitlen ?m)" by simp
  then have "(of_int (?m + 1) :: rat) \<le> of_int (2 ^ nat (bitlen ?m))"
    by (simp only: of_int_le_iff)
  finally have yhi: "?y \<le> 2 ^ nat (bitlen ?m)" by simp
  have "(of_int (2 ^ nat (bitlen ?m - 1)) :: rat) \<le> of_int ?m"
    using lo by (simp only: of_int_le_iff)
  also have "of_int ?m < ?y"
    using ceiling_correct [of ?y] by simp
  finally have ylo: "2 ^ nat (bitlen ?m - 1) < ?y" by simp
  have p: "(0::rat) < 2 ^ nat (bitlen ?m)" "(0::rat) < 2 ^ nat (bitlen ?m - 1)" by simp_all
  from yhi assms p have 1: "1 / 2 ^ nat (bitlen ?m) \<le> x"
    by (simp add: field_simps)
  from ylo assms p have 2: "x < 1 / 2 ^ nat (bitlen ?m - 1)"
    by (simp add: field_simps)
  have e1: "(2::rat) powi (- bitlen ?m) = 1 / 2 ^ nat (bitlen ?m)"
    using b by (simp add: power_int_def inverse_eq_divide power_one_over)
  have e2: "(2::rat) powi (- bitlen ?m + 1) = 1 / 2 ^ nat (bitlen ?m - 1)"
  proof (cases "bitlen ?m = 1")
    case True
    then show ?thesis by simp
  next
    case False
    with b have "- bitlen ?m + 1 < 0" by simp
    moreover have "nat (- (- bitlen ?m + 1)) = nat (bitlen ?m - 1)" by simp
    ultimately show ?thesis
      by (simp add: power_int_def inverse_eq_divide power_one_over)
  qed
  have bin: "binade x = - bitlen ?m" using False by (simp add: binade_def)
  have "2 powi binade x \<le> x" unfolding bin e1 by (rule 1)
  moreover have "x < 2 powi (binade x + 1)" unfolding bin e2 by (rule 2)
  ultimately show ?thesis by blast
qed

lemma binade_unique:
  assumes "0 < x" and "2 powi e \<le> x" and "x < 2 powi (e + 1)"
  shows "binade x = e"
proof -
  from binade_bounds [OF assms(1)] have lo: "2 powi binade x \<le> x"
    and hi: "x < 2 powi (binade x + 1)" by simp_all
  have "\<not> binade x < e"
  proof
    assume "binade x < e"
    then have "(2::rat) powi (binade x + 1) \<le> 2 powi e"
      by (intro power_int_increasing) simp_all
    with hi assms(2) show False by simp
  qed
  moreover have "\<not> e < binade x"
  proof
    assume "e < binade x"
    then have "(2::rat) powi (e + 1) \<le> 2 powi binade x"
      by (intro power_int_increasing) simp_all
    with lo assms(3) show False by simp
  qed
  ultimately show ?thesis by simp
qed

lemma ulp_positive: "0 < ulp x"
  by (simp add: ulp_def)

lemma ulp_below_2048:
  assumes "0 < x" and "x < 2048"
  shows "\<exists>j. 1 / 2 ^ 42 = ulp x * 2 ^ j"
proof -
  define k where "k = max (binade x) (- 1022) - 52"
  define j where "j = nat (- 42 - k)"
  from binade_bounds [OF assms(1)] have lo: "2 powi binade x \<le> x" by simp
  have "\<not> 11 \<le> binade x"
  proof
    assume "11 \<le> binade x"
    then have "(2::rat) powi 11 \<le> 2 powi binade x"
      by (intro power_int_increasing) simp_all
    with lo assms(2) show False by simp
  qed
  then have "k \<le> - 42" by (simp add: k_def)
  then have kj: "k + int j = - 42" by (simp add: j_def)
  have u: "ulp x = 2 powi k"
    using assms(1) by (simp add: ulp_def k_def)
  have "ulp x * 2 ^ j = 2 powi k * 2 powi int j"
    by (simp add: u)
  also have "\<dots> = 2 powi (k + int j)"
    by (rule power_int_add [symmetric]) simp
  also have "\<dots> = 2 powi (- 42)" by (simp only: kj)
  also have "\<dots> = 1 / 2 ^ 42" by (simp add: inverse_eq_divide)
  finally show ?thesis by (intro exI [of _ j]) simp
qed

lemma on_grid_below_2048:
  assumes "0 < x" and "x < 2048" and "B * 2 ^ 42 \<in> \<int>"
  shows "\<exists>N. B = of_int N * ulp x"
proof -
  from ulp_below_2048 [OF assms(1,2)] obtain j where j: "1 / 2 ^ 42 = ulp x * 2 ^ j"
    by blast
  from assms(3) obtain M where M: "B * 2 ^ 42 = of_int M" by (rule Ints_cases)
  have "B = (B * 2 ^ 42) * (1 / 2 ^ 42)" by simp
  also have "\<dots> = of_int M * (ulp x * 2 ^ j)" by (simp only: M j)
  also have "\<dots> = of_int (M * 2 ^ j) * ulp x" by simp
  finally show ?thesis by blast
qed

lemma binary64_le:
  assumes "0 < x" and "x < 2048" and "x \<le> B" and "B * 2 ^ 42 \<in> \<int>"
  shows "binary64 x \<le> B"
proof -
  from on_grid_below_2048 [OF assms(1,2,4)] obtain N where N: "B = of_int N * ulp x"
    by blast
  have u: "0 < ulp x" by (rule ulp_positive)
  from assms(3) u have "x / ulp x \<le> of_int N"
    unfolding N by (simp add: pos_divide_le_eq)
  then have "nearest_even (x / ulp x) \<le> N" by (rule nearest_even_le)
  then have "(of_int (nearest_even (x / ulp x)) :: rat) \<le> of_int N" by simp
  with u have "of_int (nearest_even (x / ulp x)) * ulp x \<le> of_int N * ulp x"
    by (simp add: mult_right_mono)
  with assms(1) show ?thesis unfolding N by (simp add: binary64_def)
qed

lemma binary64_ge:
  assumes "0 < x" and "x < 2048" and "B \<le> x" and "B * 2 ^ 42 \<in> \<int>"
  shows "B \<le> binary64 x"
proof -
  from on_grid_below_2048 [OF assms(1,2,4)] obtain N where N: "B = of_int N * ulp x"
    by blast
  have u: "0 < ulp x" by (rule ulp_positive)
  from assms(3) u have "of_int N \<le> x / ulp x"
    unfolding N by (simp add: pos_le_divide_eq)
  then have "N \<le> nearest_even (x / ulp x)" by (rule nearest_even_ge)
  then have "(of_int N :: rat) \<le> of_int (nearest_even (x / ulp x))" by simp
  with u have "of_int N * ulp x \<le> of_int (nearest_even (x / ulp x)) * ulp x"
    by (simp add: mult_right_mono)
  with assms(1) show ?thesis unfolding N by (simp add: binary64_def)
qed

lemma binary64_between:
  assumes "0 \<le> L" and "L \<le> x" and "x \<le> H" and "H < 2048"
    and "L * 2 ^ 42 \<in> \<int>" and "H * 2 ^ 42 \<in> \<int>"
  shows "L \<le> binary64 x \<and> binary64 x \<le> H"
proof (cases "x = 0")
  case True
  with assms(1,2,3) show ?thesis by (simp add: binary64_def)
next
  case False
  with assms(1,2) have x: "0 < x" by simp
  from assms(3,4) have lt: "x < 2048" by simp
  from binary64_le [OF x lt assms(3,6)] binary64_ge [OF x lt assms(2,5)]
  show ?thesis by blast
qed

section \<open>The fallback data generator: categories, ranges and formats\<close>

lemma show_nat_digit: "n < 10 \<Longrightarrow> show_nat n = [digit n]"
  by (simp add: show_nat.simps [of n])

lemma price_floor_range:
  fixes r :: rat and w b :: int
  assumes "0 \<le> r" and "r < 1" and "0 < w" and "0 \<le> b" and "b + w < 2048"
  shows "b \<le> \<lfloor>binary64 (binary64 (r * of_int w) + of_int b)\<rfloor> \<and>
         \<lfloor>binary64 (binary64 (r * of_int w) + of_int b)\<rfloor> \<le> b + w"
proof -
  let ?z = "binary64 (r * of_int w)"
  have w: "(0::rat) < of_int w" using assms(3) by simp
  have x0: "0 \<le> r * of_int w" using assms(1) w by simp
  have "r * of_int w \<le> 1 * of_int w"
    using assms(2) w by (intro mult_right_mono) simp_all
  then have x1: "r * of_int w \<le> of_int w" by simp
  from assms(4,5) have "w < 2048" by simp
  then have "(of_int w :: rat) < of_int 2048" by (simp only: of_int_less_iff)
  then have w2: "(of_int w :: rat) < 2048" by simp
  have z: "0 \<le> ?z \<and> ?z \<le> of_int w"
    using x0 x1 w2 by (intro binary64_between) simp_all
  have b0: "(0::rat) \<le> of_int b" using assms(4) by simp
  from assms(5) have "(of_int (b + w) :: rat) < of_int 2048" by (simp only: of_int_less_iff)
  then have bw: "(of_int (b + w) :: rat) < 2048" by simp
  have y0: "of_int b \<le> ?z + of_int b" using z by simp
  have y1: "?z + of_int b \<le> of_int (b + w)" using z by simp
  have "of_int b \<le> binary64 (?z + of_int b) \<and> binary64 (?z + of_int b) \<le> of_int (b + w)"
    using b0 y0 y1 bw by (intro binary64_between) simp_all
  then show ?thesis
    by (simp add: le_floor_iff floor_le_iff)
qed

lemma draw_below_one:
  assumes "random_draw r"
  shows "r \<le> 1 - 1 / 2 ^ 53"
proof (cases "r < 1 / 2")
  case True
  then show ?thesis by simp
next
  case False
  from assms have r: "binary64 r = r" "r < 1" by (simp_all add: random_draw_def)
  from False have pos: "0 < r" by simp
  have "binade r = - 1"
    using pos False r(2) by (intro binade_unique) simp_all
  then have u: "ulp r = 1 / 2 ^ 53"
    using pos by (simp add: ulp_def inverse_eq_divide)
  define n where "n = nearest_even (r / ulp r)"
  from r(1) pos have rn: "r = of_int n / 2 ^ 53"
    by (simp add: binary64_def n_def u)
  with r(2) have "(of_int n :: rat) < of_int (2 ^ 53)" by simp
  then have "n < 2 ^ 53" by (simp only: of_int_less_iff)
  then have "n \<le> 2 ^ 53 - 1" by simp
  then have "(of_int n :: rat) \<le> of_int (2 ^ 53 - 1)" by (simp only: of_int_le_iff)
  then show ?thesis by (simp add: rn field_simps)
qed

lemma laptop_price_floor:
  assumes "random_draw r"
  shows "\<lfloor>binary64 (binary64 (r * 1500) + 500)\<rfloor> \<le> 1999"
proof -
  define B :: rat where "B = 1500 - 1 / 2 ^ 42"
  let ?x = "r * 1500"
  from assms have r0: "0 \<le> r" by (simp add: random_draw_def)
  from draw_below_one [OF assms] have x1: "?x \<le> 1500 - 1500 / 2 ^ 53" by simp
  have z: "binary64 ?x \<le> B"
  proof (cases "?x \<le> B")
    case True
    show ?thesis
    proof (cases "?x = 0")
      case True
      then show ?thesis by (simp add: binary64_def B_def)
    next
      case False
      with r0 have "0 < ?x" by simp
      moreover from x1 have "?x < 2048" by simp
      moreover note True
      moreover have "B * 2 ^ 42 \<in> \<int>" by (simp add: B_def)
      ultimately show ?thesis by (rule binary64_le)
    qed
  next
    case False
    then have lo: "B < ?x" by simp
    then have pos: "0 < ?x" by (simp add: B_def)
    have "binade ?x = 10"
      using pos lo x1 by (intro binade_unique) (simp_all add: B_def)
    then have u: "ulp ?x = 1 / 2 ^ 42"
      using pos by (simp add: ulp_def inverse_eq_divide)
    from x1 have "?x / ulp ?x < of_int (1500 * 2 ^ 42 - 1) + 1 / 2"
      by (simp add: u)
    then have "nearest_even (?x / ulp ?x) \<le> 1500 * 2 ^ 42 - 1"
      by (rule nearest_even_below_half)
    then have "(of_int (nearest_even (?x / ulp ?x)) :: rat) \<le> of_int (1500 * 2 ^ 42 - 1)"
      by (simp only: of_int_le_iff)
    then have "of_int (nearest_even (?x / ulp ?x)) * ulp ?x \<le> B"
      by (simp add: u B_def field_simps)
    with pos show ?thesis by (simp add: binary64_def)
  qed
  let ?y = "binary64 ?x + 500"
  have "0 \<le> binary64 ?x \<and> binary64 ?x \<le> 1500"
    using r0 x1 by (intro binary64_between) simp_all
  then have y0: "0 < ?y" and y2: "?y < 2048" by simp_all
  from z have y1: "?y \<le> 2000 - 1 / 2 ^ 42" by (simp add: B_def)
  have "binary64 ?y \<le> 2000 - 1 / 2 ^ 42"
    using y0 y2 y1 by (rule binary64_le) simp
  then have "binary64 ?y < 2000" by simp
  then show ?thesis by (simp add: floor_le_iff)
qed

lemma random_price_range:
  assumes "random_draw r"
  shows "\<exists>k. 400 \<le> k \<and> k \<le> 1200 \<and> random_price r 800 400 = ''$'' @ show_int k @ ''.99''"
    and "\<exists>k. 500 \<le> k \<and> k \<le> 1999 \<and> random_price r 1500 500 = ''$'' @ show_int k @ ''.99''"
    and "\<exists>k. 100 \<le> k \<and> k \<le> 600 \<and> random_price r 500 100 = ''$'' @ show_int k @ ''.99''"
proof -
  from assms have r: "0 \<le> r" "r < 1" by (simp_all add: random_draw_def)
  from price_floor_range [OF r, of 800 400]
  show "\<exists>k. 400 \<le> k \<and> k \<le> 1200 \<and> random_price r 800 400 = ''$'' @ show_int k @ ''.99''"
    by (intro exI [of _ "\<lfloor>binary64 (binary64 (r * 800) + 400)\<rfloor>"])
       (simp add: random_price_def)
  from price_floor_range [OF r, of 1500 500] laptop_price_floor [OF assms]
  show "\<exists>k. 500 \<le> k \<and> k \<le> 1999 \<and> random_price r 1500 500 = ''$'' @ show_int k @ ''.99''"
    by (intro exI [of _ "\<lfloor>binary64 (binary64 (r * 1500) + 500)\<rfloor>"])
       (simp add: random_price_def)
  from price_floor_range [OF r, of 500 100]
  show "\<exists>k. 100 \<le> k \<and> k \<le> 600 \<and> random_price r 500 100 = ''$'' @ show_int k @ ''.99''"
    by (intro exI [of _ "\<lfloor>binary64 (binary64 (r * 500) + 100)\<rfloor>"])
       (simp add: random_price_def)
qed

lemma random_rating_range:
  assumes "random_draw r"
  shows "\<exists>t. 35 \<le> t \<and> t \<le> 50 \<and>
           random_rating r = [digit (t div 10)] @ ''.'' @ [digit (t mod 10)] @ ''/5 (estimated)''"
proof -
  from assms have r: "0 \<le> r" "r < 1" by (simp_all add: random_draw_def)
  let ?z = "binary64 (r * (3 / 2))"
  let ?x = "binary64 (?z + 7 / 2)"
  let ?t = "tenths ?x"
  have "0 \<le> ?z \<and> ?z \<le> 3 / 2"
    using r by (intro binary64_between) simp_all
  then have "7 / 2 \<le> ?z + 7 / 2" and "?z + 7 / 2 \<le> 5" by simp_all
  then have x: "7 / 2 \<le> ?x \<and> ?x \<le> 5"
    by (intro binary64_between) simp_all
  then have lo: "(of_int 35 :: rat) \<le> ?x * 10 + 1 / 2" and hi: "?x * 10 + 1 / 2 < of_int 51"
    by simp_all
  have "35 \<le> \<lfloor>?x * 10 + 1 / 2\<rfloor>" using lo by (simp only: le_floor_iff)
  moreover have "\<lfloor>?x * 10 + 1 / 2\<rfloor> < 51" using hi by (simp only: floor_less_iff)
  ultimately have t: "35 \<le> ?t" "?t \<le> 50"
    unfolding tenths_def by linarith+
  then have "?t div 10 < 10" "?t mod 10 < 10" by simp_all
  then have "toFixed1 ?x = [digit (?t div 10)] @ ''.'' @ [digit (?t mod 10)]"
    by (simp add: toFixed1_def show_nat_digit)
  with t show ?thesis
    by (intro exI [of _ ?t]) (simp add: random_rating_def)
qed

lemma category_of_branches:
  "category_of n =
     (if isPhone n then Phone_like else if isLaptop n then Laptop_like else Generic)"
  by (simp add: category_of_def mentions_def phone_keywords_def laptop_keywords_def
      isPhone_def isLaptop_def str_includes_def)

lemma category_iPhone: "category_of ''iPhone 15 Pro'' = Phone_like"
  by code_simp

lemma category_Galaxy: "category_of ''Samsung Galaxy S24 Ultra'' = Phone_like"
  by code_simp

lemma category_MacBook: "category_of ''MacBook Air'' = Laptop_like"
  by code_simp

lemma category_Lamp: "category_of ''Desk Lamp'' = Generic"
  by code_simp

lemma fallback_by_category:
  "p_name (createIntelligentFallback n r1 r2) = Some n \<and>
   p_features (createIntelligentFallback n r1 r2) = Some (category_features (category_of n)) \<and>
   p_specifications (createIntelligentFallback n r1 r2) =
     Some (category_specifications (category_of n) n) \<and>
   p_images (createIntelligentFallback n r1 r2) = None"
  by (simp add: createIntelligentFallback_def category_of_branches)

lemma fallback_price_range:
  assumes "random_draw r1"
  shows "\<exists>k. price_low (category_of n) \<le> k \<and> k \<le> price_high (category_of n) \<and>
           p_price (createIntelligentFallback n r1 r2) = Some (''$'' @ show_int k @ ''.99'')"
  using random_price_range [OF assms]
  by (simp add: createIntelligentFallback_def category_of_branches)

lemma fallback_rating:
  "p_rating (createIntelligentFallback n r1 r2) = Some (random_rating r2)"
  by (simp add: createIntelligentFallback_def)

lemma extreme_draws:
  "random_draw (1 - 1 / 2 ^ 53) \<and>
   p_price (createIntelligentFallback ''iPhone 15 Pro'' (1 - 1 / 2 ^ 53) 0) = Some ''$1200.99'' \<and>
   p_price (createIntelligentFallback ''MacBook Air'' (1 - 1 / 2 ^ 53) 0) = Some ''$1999.99'' \<and>
   p_price (createIntelligentFallback ''Desk Lamp'' (1 - 1 / 2 ^ 53) 0) = Some ''$600.99'' \<and>
   p_price (createIntelligentFallback ''iPhone 15 Pro'' 0 0) = Some ''$400.99'' \<and>
   p_price (createIntelligentFallback ''iPhone 15 Pro'' (5629499534213 / 2 ^ 52) 0) =
     Some ''$401.99'' \<and>
   p_rating (createIntelligentFallback ''Desk Lamp'' 0 (1 / 2 - 1 / 2 ^ 52)) =
     Some ''4.3/5 (estimated)'' \<and>
   p_rating (createIntelligentFallback ''Desk Lamp'' 0 0) = Some ''3.5/5 (estimated)'' \<and>
   p_rating (createIntelligentFallback ''Desk Lamp'' 0 (1 - 1 / 2 ^ 53)) =
     Some ''5.0/5 (estimated)''"
  by code_simp

text \<open>
  C6. For every product name the generator returns a record (it is a total function;
  the two random draws are binary64 values in \<open>[0, 1)\<close>). The name falls into one of
  three categories by keyword match on its lower-case form: phone-like for "phone",
  "iphone" or "galaxy", else laptop-like for "laptop", "macbook" or "thinkpad", else
  generic. The record carries the feature list and the specification template of its
  category, a price \<open>$k.99\<close> with \<open>k\<close> a whole number in the range of the category (400
  to 1200, 500 to 1999, 100 to 600, with the roundings of binary64 arithmetic), and a
  rating \<open>d.d/5 (estimated)\<close> between 3.5 and 5.0. The three feature lists, ranges and
  templates differ from one another. The names "iPhone 15 Pro" and "Samsung Galaxy S24
  Ultra" are phone-like: Type is Smartphone and the features are those of the phone
  category; "MacBook Air" gets the laptop record and "Desk Lamp" the generic one. The
  ends of the ranges are reached: the greatest draw, \<open>1 - 1 / 2 ^ 53\<close>, gives the prices
  $1200.99, $1999.99 and $600.99 and the rating 5.0, the draw 0 gives $400.99 and 3.5.
\<close>

theorem createIntelligentFallback_categories:
  assumes "random_draw r1" and "random_draw r2"
  shows
    "(let c = category_of n; fb = createIntelligentFallback n r1 r2
      in p_name fb = Some n \<and>
         p_features fb = Some (category_features c) \<and>
         p_specifications fb = Some (category_specifications c n) \<and>
         (\<exists>k. price_low c \<le> k \<and> k \<le> price_high c \<and>
              p_price fb = Some (''$'' @ show_int k @ ''.99'')) \<and>
         (\<exists>t. 35 \<le> t \<and> t \<le> 50 \<and>
              p_rating fb =
                Some ([digit (t div 10)] @ ''.'' @ [digit (t mod 10)] @ ''/5 (estimated)''))) \<and>
     distinct (map category_features [Phone_like, Laptop_like, Generic]) \<and>
     distinct (map (\<lambda>c. (price_low c, price_high c)) [Phone_like, Laptop_like, Generic]) \<and>
     distinct (map (\<lambda>c. category_specifications c n) [Phone_like, Laptop_like, Generic]) \<and>
     category_of ''iPhone 15 Pro'' = Phone_like \<and>
     category_of ''Samsung Galaxy S24 Ultra'' = Phone_like \<and>
     spec_map (p_specifications (createIntelligentFallback ''iPhone 15 Pro'' r1 r2)) ''Type'' =
       Some ''Smartphone'' \<and>
     p_features (createIntelligentFallback ''iPhone 15 Pro'' r1 r2) =
       Some (category_features Phone_like) \<and>
     spec_map (p_specifications (createIntelligentFallback ''Samsung Galaxy S24 Ultra'' r1 r2))
       ''Type'' = Some ''Smartphone'' \<and>
     p_features (createIntelligentFallback ''Samsung Galaxy S24 Ultra'' r1 r2) =
       Some (category_features Phone_like) \<and>
     spec_map (p_specifications (createIntelligentFallback ''MacBook Air'' r1 r2)) ''Type'' =
       Some ''Laptop Computer'' \<and>
     p_features (createIntelligentFallback ''MacBook Air'' r1 r2) =
       Some (category_features Laptop_like) \<and>
     spec_map (p_specifications (createIntelligentFallback ''Desk Lamp'' r1 r2)) ''Product'' =
       Some ''Desk Lamp'' \<and>
     p_features (createIntelligentFallback ''Desk Lamp'' r1 r2) =
       Some (category_features Generic) \<and>
     random_draw (1 - 1 / 2 ^ 53) \<and>
     p_price (createIntelligentFallback ''iPhone 15 Pro'' (1 - 1 / 2 ^ 53) 0) =
       Some ''$1200.99'' \<and>
     p_price (createIntelligentFallback ''MacBook Air'' (1 - 1 / 2 ^ 53) 0) =
       Some ''$1999.99'' \<and>
     p_price (createIntelligentFallback ''Desk Lamp'' (1 - 1 / 2 ^ 53) 0) = Some ''$600.99'' \<and>
     p_price (createIntelligentFallback ''iPhone 15 Pro'' 0 0) = Some ''$400.99'' \<and>
     p_rating (createIntelligentFallback ''Desk Lamp'' 0 0) = Some ''3.5/5 (estimated)'' \<and>
     p_rating (createIntelligentFallback ''Desk Lamp'' 0 (1 - 1 / 2 ^ 53)) =
       Some ''5.0/5 (estimated)''"
proof -
  let ?c = "category_of n"
  let ?fb = "createIntelligentFallback n r1 r2"
  have pr: "\<exists>k. price_low ?c \<le> k \<and> k \<le> price_high ?c \<and>
      p_price ?fb = Some (''$'' @ show_int k @ ''.99'')"
    using assms(1) by (rule fallback_price_range)
  have ra: "\<exists>t. 35 \<le> t \<and> t \<le> 50 \<and>
      p_rating ?fb = Some ([digit (t div 10)] @ ''.'' @ [digit (t mod 10)] @ ''/5 (estimated)'')"
    using random_rating_range [OF assms(2)] by (simp add: fallback_rating)
  have general: "let c = ?c; fb = ?fb
      in p_name fb = Some n \<and>
         p_features fb = Some (category_features c) \<and>
         p_specifications fb = Some (category_specifications c n) \<and>
         (\<exists>k. price_low c \<le> k \<and> k \<le> price_high c \<and>
              p_price fb = Some (''$'' @ show_int k @ ''.99'')) \<and>
         (\<exists>t. 35 \<le> t \<and> t \<le> 50 \<and>
              p_rating fb =
                Some ([digit (t div 10)] @ ''.'' @ [digit (t mod 10)] @ ''/5 (estimated)''))"
    unfolding Let_def using fallback_by_category [of n r1 r2] pr ra by blast
  have d1: "distinct (map category_features [Phone_like, Laptop_like, Generic])"
    by simp
  have d2: "distinct (map (\<lambda>c. (price_low c, price_high c)) [Phone_like, Laptop_like, Generic])"
    by simp
  have d3: "distinct (map (\<lambda>c. category_specifications c n) [Phone_like, Laptop_like, Generic])"
    by simp
  note c1 = category_iPhone and c2 = category_Galaxy and c3 = category_MacBook
    and c4 = category_Lamp
  have s1: "spec_map (p_specifications (createIntelligentFallback ''iPhone 15 Pro'' r1 r2))
      ''Type'' = Some ''Smartphone''"
    using fallback_by_category [of "''iPhone 15 Pro''" r1 r2] by (simp add: c1)
  have f1: "p_features (createIntelligentFallback ''iPhone 15 Pro'' r1 r2) =
      Some (category_features Phone_like)"
    using fallback_by_category [of "''iPhone 15 Pro''" r1 r2] by (simp only: c1)
  have s2: "spec_map (p_specifications (createIntelligentFallback ''Samsung Galaxy S24 Ultra'' r1 r2))
      ''Type'' = Some ''Smartphone''"
    using fallback_by_category [of "''Samsung Galaxy S24 Ultra''" r1 r2] by (simp add: c2)
  have f2: "p_features (createIntelligentFallback ''Samsung Galaxy S24 Ultra'' r1 r2) =
      Some (category_features Phone_like)"
    using fallback_by_category [of "''Samsung Galaxy S24 Ultra''" r1 r2] by (simp only: c2)
  have s3: "spec_map (p_specifications (createIntelligentFallback ''MacBook Air'' r1 r2))
      ''Type'' = Some ''Laptop Computer''"
    using fallback_by_category [of "''MacBook Air''" r1 r2] by (simp add: c3)
  have f3: "p_features (createIntelligentFallback ''MacBook Air'' r1 r2) =
      Some (category_features Laptop_like)"
    using fallback_by_category [of "''MacBook Air''" r1 r2] by (simp only: c3)
  have s4: "spec_map (p_specifications (createIntelligentFallback ''Desk Lamp'' r1 r2))
      ''Product'' = Some ''Desk Lamp''"
    using fallback_by_category [of "''Desk Lamp''" r1 r2] by (simp add: c4)
  have f4: "p_features (createIntelligentFallback ''Desk Lamp'' r1 r2) =
      Some (category_features Generic)"
    using fallback_by_category [of "''Desk Lamp''" r1 r2] by (simp only: c4)
  from general d1 d2 d3 c1 c2 s1 f1 s2 f2 s3 f3 s4 f4 extreme_draws show ?thesis by blast
qed

lemma fallback_ThinkPad:
  "random_draw (1 / 2) \<and> random_draw (1 / 4) \<and>
   p_price (createIntelligentFallback ''ThinkPad X1'' (1 / 2) (1 / 4)) = Some ''$1250.99'' \<and>
   p_rating (createIntelligentFallback ''ThinkPad X1'' (1 / 2) (1 / 4)) =
     Some ''3.9/5 (estimated)'' \<and>
   category_of ''ThinkPad X1'' = Laptop_like"
  by code_simp

theorem createIntelligentFallback_categories_witness:
  "random_draw (1 / 2) \<and> random_draw (1 / 4) \<and>
   p_features (createIntelligentFallback ''ThinkPad X1'' (1 / 2) (1 / 4)) =
     Some [''High-performance computing'', ''Portable design'', ''Long battery life'',
           ''Professional-grade display'', ''Advanced connectivity options'']"
proof -
  have h: "random_draw (1 / 2)" "random_draw (1 / 4)"
    using fallback_ThinkPad by blast+
  have "p_features (createIntelligentFallback ''ThinkPad X1'' (1 / 2) (1 / 4)) =
      Some (category_features (category_of ''ThinkPad X1''))"
    using createIntelligentFallback_categories [OF h, of "''ThinkPad X1''"]
    unfolding Let_def by blast
  then show ?thesis using h fallback_ThinkPad by simp
qed

section \<open>The per-product aggregator\<close>

lemma scrape_step_rejects:
  assumes "outcome (scrapeProduct sc (calls s) n) = Rejects e"
  shows "scrape_step w n (rs, s) sc =
    (rs @ [createIntelligentFallback n (Math_random w (randoms s)) (Math_random w (randoms s + 1))],
     s\<lparr>logs := logs s @
          [\<lparr>level = Info,
            message = ''Starting intelligent '' @ constructor_name sc @ '' for '' @ n,
            context_data = JUndefined\<rparr>] @
          scraper_logs (scrapeProduct sc (calls s) n) @
          [\<lparr>level = Warn,
            message = ''Scraper '' @ constructor_name sc @ '' had issues, using fallback data'',
            context_data = JObject [(''product'', JString n),
                                    (''error'', JString (error_message e))]\<rparr>],
        calls := calls s @ [Scrape (constructor_name sc) n],
        randoms := randoms s + 2\<rparr>)"
  using assms
  by (simp add: scrape_step.simps Let_def log_info_def log_warn_def logger_add_def
      fallback_data_def)

lemma scrape_step_empty:
  assumes "outcome (scrapeProduct sc (calls s) n) = Resolves None"
  shows "scrape_step w n (rs, s) sc =
    (rs,
     s\<lparr>logs := logs s @
          [\<lparr>level = Info,
            message = ''Starting intelligent '' @ constructor_name sc @ '' for '' @ n,
            context_data = JUndefined\<rparr>] @
          scraper_logs (scrapeProduct sc (calls s) n),
        calls := calls s @ [Scrape (constructor_name sc) n]\<rparr>)"
  using assms by (simp add: scrape_step.simps Let_def log_info_def logger_add_def)

lemma scrape_step_data:
  assumes "outcome (scrapeProduct sc (calls s) n) = Resolves (Some d)"
  shows "fst (scrape_step w n (rs, s) sc) = rs @ [d]"
  using assms by (simp add: scrape_step.simps Let_def log_info_def logger_add_def)

lemma collect_results_nonempty: "fst (collect_results w n scs s) \<noteq> []"
  by (simp add: collect_results_def Let_def)

lemma collect_results_guard:
  "fst (collect_results w n scs s) =
     (let acc = foldl (scrape_step w n) ([], s) scs
      in if fst acc = [] then
           [createIntelligentFallback n (Math_random w (randoms (snd acc)))
              (Math_random w (randoms (snd acc) + 1))]
         else fst acc)"
  by (simp add: collect_results_def Let_def fallback_data_def log_info_def)

lemma aggregator_name: "name (fst (scrapeProductDataWithFallback w n scs s)) = n"
  by (simp add: scrapeProductDataWithFallback_def Let_def mergeProductData_def
      foldl_merge_name merged_init_def)

subsection \<open>When every source fails\<close>

lemma scrape_step_fails:
  assumes "source_fails (outcome (scrapeProduct sc (calls s) n))"
  shows "fst (scrape_step w n (rs, s) sc) = rs \<or>
         (\<exists>r1 r2. fst (scrape_step w n (rs, s) sc) = rs @ [createIntelligentFallback n r1 r2])"
proof (cases "outcome (scrapeProduct sc (calls s) n)")
  case (Resolves d)
  with assms have "d = None" by (cases d) simp_all
  with Resolves show ?thesis by (simp add: scrape_step_empty)
next
  case (Rejects e)
  then have "fst (scrape_step w n (rs, s) sc) =
      rs @ [createIntelligentFallback n (Math_random w (randoms s))
              (Math_random w (randoms s + 1))]"
    by (simp add: scrape_step_rejects)
  then show ?thesis by blast
qed

lemma foldl_scrape_step_fails:
  assumes "list_all (\<lambda>sc. \<forall>h. source_fails (outcome (scrapeProduct sc h n))) scs"
    and "\<forall>x \<in> set (fst acc). \<exists>r1 r2. x = createIntelligentFallback n r1 r2"
  shows "\<forall>x \<in> set (fst (foldl (scrape_step w n) acc scs)).
           \<exists>r1 r2. x = createIntelligentFallback n r1 r2"
  using assms
proof (induction scs arbitrary: acc)
  case Nil
  then show ?case by simp
next
  case (Cons sc scs)
  obtain rs s where acc: "acc = (rs, s)" by (cases acc)
  from Cons.prems(1) have sc: "source_fails (outcome (scrapeProduct sc (calls s) n))"
    and rest: "list_all (\<lambda>sc. \<forall>h. source_fails (outcome (scrapeProduct sc h n))) scs"
    by simp_all
  from Cons.prems(2) acc
  have old: "\<forall>x \<in> set rs. \<exists>r1 r2. x = createIntelligentFallback n r1 r2"
    by simp
  from scrape_step_fails [OF sc, of w rs]
  consider (same) "fst (scrape_step w n (rs, s) sc) = rs"
    | (more) r1 r2 where
        "fst (scrape_step w n (rs, s) sc) = rs @ [createIntelligentFallback n r1 r2]"
    by blast
  then have "\<forall>x \<in> set (fst (scrape_step w n (rs, s) sc)).
      \<exists>r1 r2. x = createIntelligentFallback n r1 r2"
  proof cases
    case same
    with old show ?thesis by simp
  next
    case more
    show ?thesis
    proof
      fix x
      assume "x \<in> set (fst (scrape_step w n (rs, s) sc))"
      with more have "x \<in> set rs \<or> x = createIntelligentFallback n r1 r2"
        by auto
      with old show "\<exists>r1 r2. x = createIntelligentFallback n r1 r2"
        by blast
    qed
  qed
  then show ?case
    using Cons.IH [OF rest, of "scrape_step w n (rs, s) sc"] acc by simp
qed

lemma collect_results_fails:
  assumes "list_all (\<lambda>sc. \<forall>h. source_fails (outcome (scrapeProduct sc h n))) scs"
  shows "\<forall>x \<in> set (fst (collect_results w n scs s)).
           \<exists>r1 r2. x = createIntelligentFallback n r1 r2"
proof -
  have "\<forall>x \<in> set (fst (foldl (scrape_step w n) ([], s) scs)).
      \<exists>r1 r2. x = createIntelligentFallback n r1 r2"
    using foldl_scrape_step_fails [OF assms, of "([], s)"] by simp
  moreover have "\<exists>r1 r2. createIntelligentFallback n a b = createIntelligentFallback n r1 r2"
    for a b
    by blast
  ultimately show ?thesis
    unfolding collect_results_guard Let_def
    by (cases "fst (foldl (scrape_step w n) ([], s) scs) = []") simp_all
qed

lemma set_add_append: "set_add seen (xs @ ys) = set_add (set_add seen xs) ys"
  by (induction xs arbitrary: seen) simp_all

lemma set_add_fresh: "distinct (seen @ xs) \<Longrightarrow> set_add seen xs = seen @ xs"
  by (induction xs arbitrary: seen) auto

lemma set_add_known: "set xs \<subseteq> set seen \<Longrightarrow> set_add seen xs = seen"
  by (induction xs arbitrary: seen) auto

lemma new_Set_twice: "distinct xs \<Longrightarrow> new_Set (xs @ xs) = xs"
  by (simp add: new_Set_def set_add_append set_add_fresh set_add_known)

lemma new_Set_distinct: "distinct xs \<Longrightarrow> new_Set xs = xs"
  by (simp add: new_Set_def set_add_fresh)

lemma distinct_category_features: "distinct (category_features c)"
  by (cases c) simp_all

lemma spread_category_specifications:
  "spread [] (category_specifications c n) = category_specifications c n \<and>
   spread (category_specifications c n) (category_specifications c n) =
     category_specifications c n"
  by (cases c) (simp_all add: spread_def)

lemma merge_result_fallback:
  assumes "features m = [] \<or> features m = category_features (category_of n)"
    and "specifications m = [] \<or> specifications m = category_specifications (category_of n) n"
  shows "features (merge_result m (createIntelligentFallback n r1 r2)) =
           category_features (category_of n) \<and>
         specifications (merge_result m (createIntelligentFallback n r1 r2)) =
           category_specifications (category_of n) n"
proof -
  have f: "features (merge_result m (createIntelligentFallback n r1 r2)) =
      new_Set (features m @ category_features (category_of n))"
    using fallback_by_category [of n r1 r2] by (simp add: merge_result_def)
  have s: "specifications (merge_result m (createIntelligentFallback n r1 r2)) =
      spread (specifications m) (category_specifications (category_of n) n)"
    using fallback_by_category [of n r1 r2] by (simp add: merge_result_def)
  from assms(1) f have "features (merge_result m (createIntelligentFallback n r1 r2)) =
      category_features (category_of n)"
    by (auto simp add: new_Set_twice new_Set_distinct distinct_category_features)
  moreover from assms(2) s
  have "specifications (merge_result m (createIntelligentFallback n r1 r2)) =
      category_specifications (category_of n) n"
    by (auto simp add: spread_category_specifications)
  ultimately show ?thesis by blast
qed

lemma foldl_merge_fallbacks:
  assumes "\<forall>x \<in> set xs. \<exists>r1 r2. x = createIntelligentFallback n r1 r2"
    and "features m = [] \<or> features m = category_features (category_of n)"
    and "specifications m = [] \<or> specifications m = category_specifications (category_of n) n"
    and "xs \<noteq> []"
  shows "features (foldl merge_result m xs) = category_features (category_of n) \<and>
         specifications (foldl merge_result m xs) = category_specifications (category_of n) n"
  using assms
proof (induction xs arbitrary: m)
  case Nil
  then show ?case by simp
next
  case (Cons x xs)
  from Cons.prems(1) obtain r1 r2 where x: "x = createIntelligentFallback n r1 r2"
    by auto
  have step: "features (merge_result m x) = category_features (category_of n) \<and>
      specifications (merge_result m x) = category_specifications (category_of n) n"
    unfolding x using Cons.prems(2,3) by (rule merge_result_fallback)
  show ?case
  proof (cases "xs = []")
    case True
    with step show ?thesis by simp
  next
    case False
    have "\<forall>x \<in> set xs. \<exists>r1 r2. x = createIntelligentFallback n r1 r2"
      using Cons.prems(1) by simp
    from Cons.IH [OF this _ _ False, of "merge_result m x"] step
    show ?thesis by simp
  qed
qed

lemma show_nat_nonempty: "show_nat k \<noteq> []"
  by (simp add: show_nat.simps [of k])

lemma fallback_scalars_nonempty:
  "\<exists>p r d a. p \<noteq> [] \<and> r \<noteq> [] \<and> d \<noteq> [] \<and> a \<noteq> [] \<and>
     p_price (createIntelligentFallback n r1 r2) = Some p \<and>
     p_rating (createIntelligentFallback n r1 r2) = Some r \<and>
     p_description (createIntelligentFallback n r1 r2) = Some d \<and>
     p_availability (createIntelligentFallback n r1 r2) = Some a"
  by (simp add: createIntelligentFallback_def random_price_def random_rating_def)

lemma merge_fallbacks_scalars:
  assumes "\<forall>x \<in> set xs. \<exists>r1 r2. x = createIntelligentFallback n r1 r2" and "xs \<noteq> []"
  shows "price (mergeProductData xs n) \<noteq> [] \<and> rating (mergeProductData xs n) \<noteq> [] \<and>
         description (mergeProductData xs n) \<noteq> [] \<and>
         availability (mergeProductData xs n) \<noteq> []"
proof -
  from assms obtain x ys where xs: "xs = x # ys" by (cases xs) auto
  with assms(1) obtain r1 r2 where x: "x = createIntelligentFallback n r1 r2" by auto
  from fallback_scalars_nonempty [of n r1 r2] obtain p r d a where
    "p \<noteq> []" "r \<noteq> []" "d \<noteq> []" "a \<noteq> []"
    "p_price x = Some p" "p_rating x = Some r" "p_description x = Some d"
    "p_availability x = Some a"
    unfolding x by blast
  then show ?thesis
    by (simp add: mergeProductData_def merged_init_def foldl_merge_price foldl_merge_rating
        foldl_merge_description foldl_merge_availability xs del: foldl_Cons)
qed

lemma aggregator_all_fail:
  assumes "list_all (\<lambda>sc. \<forall>h. source_fails (outcome (scrapeProduct sc h n))) scs"
  shows "features (fst (scrapeProductDataWithFallback w n scs s)) =
           category_features (category_of n) \<and>
         specifications (fst (scrapeProductDataWithFallback w n scs s)) =
           category_specifications (category_of n) n \<and>
         price (fst (scrapeProductDataWithFallback w n scs s)) \<noteq> [] \<and>
         rating (fst (scrapeProductDataWithFallback w n scs s)) \<noteq> [] \<and>
         description (fst (scrapeProductDataWithFallback w n scs s)) \<noteq> [] \<and>
         availability (fst (scrapeProductDataWithFallback w n scs s)) \<noteq> []"
proof -
  let ?xs = "fst (collect_results w n scs s)"
  have out: "fst (scrapeProductDataWithFallback w n scs s) = mergeProductData ?xs n"
    by (simp add: scrapeProductDataWithFallback_def Let_def)
  have fb: "\<forall>x \<in> set ?xs. \<exists>r1 r2. x = createIntelligentFallback n r1 r2"
    using assms by (rule collect_results_fails)
  have ne: "?xs \<noteq> []" by (rule collect_results_nonempty)
  have "features (foldl merge_result (merged_init n) ?xs) = category_features (category_of n) \<and>
      specifications (foldl merge_result (merged_init n) ?xs) =
        category_specifications (category_of n) n"
    using fb _ _ ne by (rule foldl_merge_fallbacks) (simp_all add: merged_init_def)
  with merge_fallbacks_scalars [OF fb ne] show ?thesis
    unfolding out by (simp add: mergeProductData_def)
qed

text \<open>
  C4, as the code has it. For every product name and every list of sources the aggregator
  returns a record: an exception of a source is caught inside the loop. A source that
  throws makes the aggregator log a warning and append a fallback-generator record. A
  source that returns an empty result appends nothing and logs no warning: the
  aggregator's only entry for it is the one written before the call. After the loop, an
  empty accumulator receives exactly one fallback-generator record, so the list handed to
  the merge is never empty. The output has the product name as its name, and when every
  source fails (throws or returns nothing) it has the features and the specifications of
  the name's category and a non-empty price, rating, description and availability.
\<close>

theorem aggregator_degrades_to_fallback:
  "fst (collect_results w n scs s) \<noteq> [] \<and>
   fst (collect_results w n scs s) =
     (let acc = foldl (scrape_step w n) ([], s) scs
      in if fst acc = [] then
           [createIntelligentFallback n (Math_random w (randoms (snd acc)))
              (Math_random w (randoms (snd acc) + 1))]
         else fst acc) \<and>
   fst (scrapeProductDataWithFallback w n scs s) =
     mergeProductData (fst (collect_results w n scs s)) n \<and>
   name (fst (scrapeProductDataWithFallback w n scs s)) = n \<and>
   (outcome (scrapeProduct sc (calls s) n) = Rejects e \<longrightarrow>
      scrape_step w n (rs, s) sc =
        (rs @ [createIntelligentFallback n (Math_random w (randoms s))
                 (Math_random w (randoms s + 1))],
         s\<lparr>logs := logs s @
              [\<lparr>level = Info,
                message = ''Starting intelligent '' @ constructor_name sc @ '' for '' @ n,
                context_data = JUndefined\<rparr>] @
              scraper_logs (scrapeProduct sc (calls s) n) @
              [\<lparr>level = Warn,
                message = ''Scraper '' @ constructor_name sc @
                          '' had issues, using fallback data'',
                context_data = JObject [(''product'', JString n),
                                        (''error'', JString (error_message e))]\<rparr>],
            calls := calls s @ [Scrape (constructor_name sc) n],
            randoms := randoms s + 2\<rparr>)) \<and>
   (outcome (scrapeProduct sc (calls s) n) = Resolves None \<longrightarrow>
      scrape_step w n (rs, s) sc =
        (rs,
         s\<lparr>logs := logs s @
              [\<lparr>level = Info,
                message = ''Starting intelligent '' @ constructor_name sc @ '' for '' @ n,
                context_data = JUndefined\<rparr>] @
              scraper_logs (scrapeProduct sc (calls s) n),
            calls := calls s @ [Scrape (constructor_name sc) n]\<rparr>)) \<and>
   (list_all (\<lambda>sc. \<forall>h. source_fails (outcome (scrapeProduct sc h n))) scs \<longrightarrow>
      features (fst (scrapeProductDataWithFallback w n scs s)) =
        category_features (category_of n) \<and>
      specifications (fst (scrapeProductDataWithFallback w n scs s)) =
        category_specifications (category_of n) n \<and>
      price (fst (scrapeProductDataWithFallback w n scs s)) \<noteq> [] \<and>
      rating (fst (scrapeProductDataWithFallback w n scs s)) \<noteq> [] \<and>
      description (fst (scrapeProductDataWithFallback w n scs s)) \<noteq> [] \<and>
      availability (fst (scrapeProductDataWithFallback w n scs s)) \<noteq> [])"
proof (intro conjI impI)
  show "fst (collect_results w n scs s) \<noteq> []"
    by (rule collect_results_nonempty)
  show "fst (collect_results w n scs s) =
     (let acc = foldl (scrape_step w n) ([], s) scs
      in if fst acc = [] then
           [createIntelligentFallback n (Math_random w (randoms (snd acc)))
              (Math_random w (randoms (snd acc) + 1))]
         else fst acc)"
    by (rule collect_results_guard)
  show "fst (scrapeProductDataWithFallback w n scs s) =
     mergeProductData (fst (collect_results w n scs s)) n"
    by (simp add: scrapeProductDataWithFallback_def Let_def)
  show "name (fst (scrapeProductDataWithFallback w n scs s)) = n"
    by (rule aggregator_name)
next
  assume "outcome (scrapeProduct sc (calls s) n) = Rejects e"
  then show "scrape_step w n (rs, s) sc =
        (rs @ [createIntelligentFallback n (Math_random w (randoms s))
                 (Math_random w (randoms s + 1))],
         s\<lparr>logs := logs s @
              [\<lparr>level = Info,
                message = ''Starting intelligent '' @ constructor_name sc @ '' for '' @ n,
                context_data = JUndefined\<rparr>] @
              scraper_logs (scrapeProduct sc (calls s) n) @
              [\<lparr>level = Warn,
                message = ''Scraper '' @ constructor_name sc @
                          '' had issues, using fallback data'',
                context_data = JObject [(''product'', JString n),
                                        (''error'', JString (error_message e))]\<rparr>],
            calls := calls s @ [Scrape (constructor_name sc) n],
            randoms := randoms s + 2\<rparr>)"
    by (rule scrape_step_rejects)
next
  assume "outcome (scrapeProduct sc (calls s) n) = Resolves None"
  then show "scrape_step w n (rs, s) sc =
        (rs,
         s\<lparr>logs := logs s @
              [\<lparr>level = Info,
                message = ''Starting intelligent '' @ constructor_name sc @ '' for '' @ n,
                context_data = JUndefined\<rparr>] @
              scraper_logs (scrapeProduct sc (calls s) n),
            calls := calls s @ [Scrape (constructor_name sc) n]\<rparr>)"
    by (rule scrape_step_empty)
next
  assume all: "list_all (\<lambda>sc. \<forall>h. source_fails (outcome (scrapeProduct sc h n))) scs"
  note r = aggregator_all_fail [OF all, of w s]
  from r show "features (fst (scrapeProductDataWithFallback w n scs s)) =
        category_features (category_of n)" by blast
  from r show "specifications (fst (scrapeProductDataWithFallback w n scs s)) =
        category_specifications (category_of n) n" by blast
  from r show "price (fst (scrapeProductDataWithFallback w n scs s)) \<noteq> []" by blast
  from r show "rating (fst (scrapeProductDataWithFallback w n scs s)) \<noteq> []" by blast
  from r show "description (fst (scrapeProductDataWithFallback w n scs s)) \<noteq> []" by blast
  from r show "availability (fst (scrapeProductDataWithFallback w n scs s)) \<noteq> []" by blast
qed

theorem aggregator_degrades_to_fallback_witness:
  "list_all (\<lambda>sc. \<forall>h. source_fails (outcome (scrapeProduct sc h ''iPhone 15 Pro'')))
     [demo_scrapybara, demo_playwright] \<and>
   features (fst (scrapeProductDataWithFallback demo_world ''iPhone 15 Pro''
                    [demo_scrapybara, demo_playwright] initial_state)) =
     category_features Phone_like \<and>
   outcome (scrapeProduct demo_scrapybara (calls initial_state) ''iPhone 15 Pro'') =
     Rejects (ErrorObject ''Session could not be started'') \<and>
   fst (scrape_step demo_world ''iPhone 15 Pro'' ([], initial_state) demo_scrapybara) =
     [createIntelligentFallback ''iPhone 15 Pro'' (1 / 2) (1 / 2)] \<and>
   outcome (scrapeProduct demo_playwright (calls initial_state) ''iPhone 15 Pro'') =
     Resolves None \<and>
   fst (scrape_step demo_world ''iPhone 15 Pro'' ([], initial_state) demo_playwright) = []"
proof -
  have h1: "list_all (\<lambda>sc. \<forall>h. source_fails (outcome (scrapeProduct sc h ''iPhone 15 Pro'')))
      [demo_scrapybara, demo_playwright]"
    by (simp add: demo_scrapybara_def demo_playwright_def demo_world_def quiet_def)
  have h2: "outcome (scrapeProduct demo_scrapybara (calls initial_state) ''iPhone 15 Pro'') =
      Rejects (ErrorObject ''Session could not be started'')"
    by (simp add: demo_scrapybara_def demo_world_def quiet_def)
  have h3: "outcome (scrapeProduct demo_playwright (calls initial_state) ''iPhone 15 Pro'') =
      Resolves None"
    by (simp add: demo_playwright_def demo_world_def quiet_def)
  have c: "category_of ''iPhone 15 Pro'' = Phone_like"
    by (rule category_iPhone)
  have r: "Math_random demo_world k = 1 / 2" for k
    by (simp add: demo_world_def)
  note t = aggregator_degrades_to_fallback
    [of demo_world "''iPhone 15 Pro''" "[demo_scrapybara, demo_playwright]" initial_state
        demo_scrapybara "ErrorObject ''Session could not be started''" "[]"]
  note all_fail = t [THEN conjunct2, THEN conjunct2, THEN conjunct2, THEN conjunct2,
      THEN conjunct2, THEN conjunct2, rule_format, OF h1]
  note rejects = t [THEN conjunct2, THEN conjunct2, THEN conjunct2, THEN conjunct2,
      THEN conjunct1, rule_format, OF h2]
  note empty = aggregator_degrades_to_fallback
    [of demo_world "''iPhone 15 Pro''" "[demo_playwright]" initial_state
        demo_playwright _ "[]",
     THEN conjunct2, THEN conjunct2, THEN conjunct2, THEN conjunct2,
     THEN conjunct2, THEN conjunct1, rule_format, OF h3]
  have a: "features (fst (scrapeProductDataWithFallback demo_world ''iPhone 15 Pro''
                    [demo_scrapybara, demo_playwright] initial_state)) =
      category_features Phone_like"
    using all_fail by (simp only: c)
  have b: "fst (scrape_step demo_world ''iPhone 15 Pro'' ([], initial_state) demo_scrapybara) =
      [createIntelligentFallback ''iPhone 15 Pro'' (1 / 2) (1 / 2)]"
    by (simp only: rejects r fst_conv append_Nil)
  have d: "fst (scrape_step demo_world ''iPhone 15 Pro'' ([], initial_state) demo_playwright) = []"
    by (simp only: empty fst_conv)
  from h1 a h2 b h3 d show ?thesis by blast
qed

text \<open>
  The claim as stated fails on a source that returns an empty result. With a second
  source that returns data, the accumulator holds that data alone (no fallback record
  for the first source), and the aggregator has logged three entries, none a warning.
\<close>

theorem aggregator_empty_result_counterexample:
  "fst (collect_results demo_world ''Desk Lamp'' [demo_playwright, demo_puppeteer]
          initial_state) = [scenario3_B] \<and>
   map level (logs (snd (collect_results demo_world ''Desk Lamp''
          [demo_playwright, demo_puppeteer] initial_state))) = [Info, Info, Info]"
  by (simp add: collect_results_def scrape_step.simps Let_def demo_playwright_def
      demo_puppeteer_def demo_world_def quiet_def log_info_def logger_add_def
      initial_state_def)

section \<open>The fallback comparison and the fallback document\<close>

lemma sublist_join_mem: "l \<in> set ls \<Longrightarrow> sublist l (join sep ls)"
proof (induction sep ls rule: join.induct)
  case (1 sep)
  then show ?case by simp
next
  case (2 sep x)
  then show ?case by simp
next
  case (3 sep x y ys)
  show ?case
  proof (cases "l = x")
    case True
    then show ?thesis by simp
  next
    case False
    with "3.prems" have "l \<in> set (y # ys)" by simp
    then have "sublist l (join sep (y # ys))" by (rule "3.IH")
    then obtain ps ss where "join sep (y # ys) = ps @ l @ ss"
      by (auto simp add: sublist_def)
    then have "join sep (x # y # ys) = (x @ sep @ ps) @ l @ ss" by simp
    then show ?thesis unfolding sublist_def by blast
  qed
qed

lemma in_line:
  assumes "i < length ls" and "ls ! i = pre @ x @ post"
  shows "sublist x (join sep ls)"
proof -
  have "sublist (ls ! i) (join sep ls)"
    using assms(1) by (intro sublist_join_mem nth_mem)
  moreover have "sublist x (ls ! i)" unfolding assms(2) by (rule sublist_appendI)
  ultimately show ?thesis by (rule sublist_order.order_trans [rotated])
qed

lemma in_block:
  assumes "sublist x block" and "i < length ls" and "ls ! i = block"
  shows "sublist x (join sep ls)"
proof -
  have "sublist block (join sep ls)"
    using assms(2) in_line [of i ls "[]" block "[]" sep] assms(3) by simp
  with assms(1) show ?thesis by (rule sublist_order.order_trans)
qed

lemma join_Cons_nonempty: "x \<noteq> [] \<Longrightarrow> join sep (x # xs) \<noteq> []"
  by (cases xs) simp_all

lemma feature_lines_cases:
  "feature_lines fs =
     (if fs = [] then ''- Features not available'' else join nl (map feature_line fs))"
proof (cases fs)
  case Nil
  then show ?thesis by (simp add: feature_lines_def or_else_def)
next
  case (Cons f fs')
  have "join nl (feature_line f # map feature_line fs') \<noteq> []"
    by (rule join_Cons_nonempty) (simp add: feature_line_def)
  with Cons show ?thesis by (simp add: feature_lines_def or_else_def)
qed

lemma specification_lines_cases:
  "specification_lines sp =
     (if sp = [] then ''- Specifications not available''
      else join nl (map specification_line sp))"
proof (cases sp)
  case Nil
  then show ?thesis by (simp add: specification_lines_def or_else_def)
next
  case (Cons e sp')
  have "join nl (specification_line e # map specification_line sp') \<noteq> []"
    by (rule join_Cons_nonempty) (cases e, simp)
  with Cons show ?thesis by (simp add: specification_lines_def or_else_def)
qed

lemma feature_lines_render:
  assumes "sublist (feature_lines fs) text"
  shows "if fs = [] then sublist ''- Features not available'' text
         else list_all (\<lambda>f. sublist (''- '' @ f) text) fs"
proof (cases "fs = []")
  case True
  with assms show ?thesis by (simp add: feature_lines_cases)
next
  case False
  have "sublist (''- '' @ f) text" if "f \<in> set fs" for f
  proof -
    have "feature_line f \<in> set (map feature_line fs)"
      using that by (simp only: set_map) (rule imageI)
    then have "sublist (feature_line f) (join nl (map feature_line fs))"
      by (rule sublist_join_mem)
    with False have "sublist (feature_line f) (feature_lines fs)"
      by (simp add: feature_lines_cases)
    then have "sublist (feature_line f) text"
      using assms by (rule sublist_order.order_trans)
    then show ?thesis by (simp only: feature_line_def)
  qed
  with False show ?thesis by (simp add: list_all_iff)
qed

lemma specification_lines_render:
  assumes "sublist (specification_lines sp) text"
  shows "if sp = [] then sublist ''- Specifications not available'' text
         else list_all (\<lambda>(k, v). sublist (''- **'' @ k @ ''**: '' @ v) text) sp"
proof (cases "sp = []")
  case True
  with assms show ?thesis by (simp add: specification_lines_cases)
next
  case False
  have "sublist (''- **'' @ k @ ''**: '' @ v) text" if "(k, v) \<in> set sp" for k v
  proof -
    have "specification_line (k, v) \<in> set (map specification_line sp)"
      using that by (simp only: set_map) (rule imageI)
    then have "sublist (specification_line (k, v)) (join nl (map specification_line sp))"
      by (rule sublist_join_mem)
    with False have "sublist (specification_line (k, v)) (specification_lines sp)"
      by (simp add: specification_lines_cases)
    then have "sublist (specification_line (k, v)) text"
      using assms by (rule sublist_order.order_trans)
    then show ?thesis by (simp only: specification_line.simps)
  qed
  with False show ?thesis by (auto simp add: list_all_iff)
qed

lemma or_else_if: "or_else a b = (if a = [] then b else a)"
  by (simp add: or_else_def)

lemma comparison_renders_first:
  "comparison_renders p1 (generateIntelligentFallbackComparison p1 p2)"
proof -
  let ?text = "generateIntelligentFallbackComparison p1 p2"
  have n: "sublist (name p1) ?text"
    unfolding generateIntelligentFallbackComparison_def
    by (rule in_line [where i = 2 and pre = "''## ''" and post = "'' vs '' @ name p2"])
       simp_all
  have p: "sublist (''- **'' @ name p1 @ ''**: '' @
      (if price p1 = [] then ''Price not available'' else price p1)) ?text"
    unfolding generateIntelligentFallbackComparison_def or_else_if
    by (rule in_line [where i = 5 and pre = "[]" and post = "[]"]) simp_all
  have "sublist (feature_lines (features p1)) ?text"
    unfolding generateIntelligentFallbackComparison_def
    by (rule in_line [where i = 11 and pre = "[]" and post = "[]"]) simp_all
  then have f: "if features p1 = [] then sublist ''- Features not available'' ?text
      else list_all (\<lambda>f. sublist (''- '' @ f) ?text) (features p1)"
    by (rule feature_lines_render)
  have "sublist (specification_lines (specifications p1)) ?text"
    unfolding generateIntelligentFallbackComparison_def
    by (rule in_line [where i = 19 and pre = "[]" and post = "[]"]) simp_all
  then have s: "if specifications p1 = [] then sublist ''- Specifications not available'' ?text
      else list_all (\<lambda>(k, v). sublist (''- **'' @ k @ ''**: '' @ v) ?text) (specifications p1)"
    by (rule specification_lines_render)
  have a: "sublist (''- **'' @ name p1 @ ''**: '' @
      (if availability p1 = [] then ''Availability unknown'' else availability p1)) ?text"
    unfolding generateIntelligentFallbackComparison_def or_else_if
    by (rule in_line [where i = 25 and pre = "[]" and post = "[]"]) simp_all
  from n p f s a show ?thesis unfolding comparison_renders_def by blast
qed

lemma comparison_renders_second:
  "comparison_renders p2 (generateIntelligentFallbackComparison p1 p2)"
proof -
  let ?text = "generateIntelligentFallbackComparison p1 p2"
  have n: "sublist (name p2) ?text"
    unfolding generateIntelligentFallbackComparison_def
    by (rule in_line [where i = 2 and pre = "''## '' @ name p1 @ '' vs ''" and post = "[]"])
       simp_all
  have p: "sublist (''- **'' @ name p2 @ ''**: '' @
      (if price p2 = [] then ''Price not available'' else price p2)) ?text"
    unfolding generateIntelligentFallbackComparison_def or_else_if
    by (rule in_line [where i = 6 and pre = "[]" and post = "[]"]) simp_all
  have "sublist (feature_lines (features p2)) ?text"
    unfolding generateIntelligentFallbackComparison_def
    by (rule in_line [where i = 14 and pre = "[]" and post = "[]"]) simp_all
  then have f: "if features p2 = [] then sublist ''- Features not available'' ?text
      else list_all (\<lambda>f. sublist (''- '' @ f) ?text) (features p2)"
    by (rule feature_lines_render)
  have "sublist (specification_lines (specifications p2)) ?text"
    unfolding generateIntelligentFallbackComparison_def
    by (rule in_line [where i = 22 and pre = "[]" and post = "[]"]) simp_all
  then have s: "if specifications p2 = [] then sublist ''- Specifications not available'' ?text
      else list_all (\<lambda>(k, v). sublist (''- **'' @ k @ ''**: '' @ v) ?text) (specifications p2)"
    by (rule specification_lines_render)
  have a: "sublist (''- **'' @ name p2 @ ''**: '' @
      (if availability p2 = [] then ''Availability unknown'' else availability p2)) ?text"
    unfolding generateIntelligentFallbackComparison_def or_else_if
    by (rule in_line [where i = 26 and pre = "[]" and post = "[]"]) simp_all
  from n p f s a show ?thesis unfolding comparison_renders_def by blast
qed

lemma readme_renders_first:
  "readme_renders p1 (generateIntelligentFallbackReadme p1 p2 c)"
proof -
  let ?text = "generateIntelligentFallbackReadme p1 p2 c"
  have n: "sublist (''### '' @ name p1) ?text"
    unfolding generateIntelligentFallbackReadme_def
    by (rule in_line [where i = 7 and pre = "[]" and post = "[]"]) simp_all
  have p: "sublist (''- **Price**: '' @
      (if price p1 = [] then ''Not available'' else price p1)) ?text"
    unfolding generateIntelligentFallbackReadme_def or_else_if
    by (rule in_line [where i = 8 and pre = "[]" and post = "[]"]) simp_all
  have r: "sublist (''- **Rating**: '' @
      (if rating p1 = [] then ''Not available'' else rating p1)) ?text"
    unfolding generateIntelligentFallbackReadme_def or_else_if
    by (rule in_line [where i = 9 and pre = "[]" and post = "[]"]) simp_all
  have a: "sublist (''- **Availability**: '' @
      (if availability p1 = [] then ''Not available'' else availability p1)) ?text"
    unfolding generateIntelligentFallbackReadme_def or_else_if
    by (rule in_line [where i = 10 and pre = "[]" and post = "[]"]) simp_all
  have "sublist (feature_lines (features p1)) ?text"
    unfolding generateIntelligentFallbackReadme_def
    by (rule in_line [where i = 20 and pre = "[]" and post = "[]"]) simp_all
  then have f: "if features p1 = [] then sublist ''- Features not available'' ?text
      else list_all (\<lambda>f. sublist (''- '' @ f) ?text) (features p1)"
    by (rule feature_lines_render)
  from n p r a f show ?thesis unfolding readme_renders_def by blast
qed

lemma readme_renders_second:
  "readme_renders p2 (generateIntelligentFallbackReadme p1 p2 c)"
proof -
  let ?text = "generateIntelligentFallbackReadme p1 p2 c"
  have n: "sublist (''### '' @ name p2) ?text"
    unfolding generateIntelligentFallbackReadme_def
    by (rule in_line [where i = 12 and pre = "[]" and post = "[]"]) simp_all
  have p: "sublist (''- **Price**: '' @
      (if price p2 = [] then ''Not available'' else price p2)) ?text"
    unfolding generateIntelligentFallbackReadme_def or_else_if
    by (rule in_line [where i = 13 and pre = "[]" and post = "[]"]) simp_all
  have r: "sublist (''- **Rating**: '' @
      (if rating p2 = [] then ''Not available'' else rating p2)) ?text"
    unfolding generateIntelligentFallbackReadme_def or_else_if
    by (rule in_line [where i = 14 and pre = "[]" and post = "[]"]) simp_all
  have a: "sublist (''- **Availability**: '' @
      (if availability p2 = [] then ''Not available'' else availability p2)) ?text"
    unfolding generateIntelligentFallbackReadme_def or_else_if
    by (rule in_line [where i = 15 and pre = "[]" and post = "[]"]) simp_all
  have "sublist (feature_lines (features p2)) ?text"
    unfolding generateIntelligentFallbackReadme_def
    by (rule in_line [where i = 23 and pre = "[]" and post = "[]"]) simp_all
  then have f: "if features p2 = [] then sublist ''- Features not available'' ?text
      else list_all (\<lambda>f. sublist (''- '' @ f) ?text) (features p2)"
    by (rule feature_lines_render)
  from n p r a f show ?thesis unfolding readme_renders_def by blast
qed

lemma readme_embeds_comparison:
  "sublist c (generateIntelligentFallbackReadme p1 p2 c)"
  unfolding generateIntelligentFallbackReadme_def
  by (rule in_line [where i = 27 and pre = "[]" and post = "[]"]) simp_all

text \<open>
  C5, as the code has it. Neither generator raises: when the model call fails, the
  comparison generator returns the fallback comparison and the document generator the
  fallback document. The fallback comparison shows, for each product, its name, its
  price, every feature, every specification entry and its availability, verbatim; an
  empty price shows as "Price not available", an empty feature list as "- Features not
  available", empty specifications as "- Specifications not available" and an empty
  availability as "Availability unknown". The fallback document shows, for each product,
  its name, its price, rating and availability (each "Not available" when empty) and its
  features (or "- Features not available"), and it embeds the comparison text verbatim.
\<close>

theorem fallback_texts_render:
  "fst (generateComparisonWithFallback w p1 p2 s) =
     (case generateText_comparison w p1 p2 of
        Generated t \<Rightarrow> t
      | Failed e \<Rightarrow> generateIntelligentFallbackComparison p1 p2) \<and>
   fst (generateReadmeWithFallback w p1 p2 c s) =
     (case generateText_readme w p1 p2 c of
        Generated t \<Rightarrow> t
      | Failed e \<Rightarrow> generateIntelligentFallbackReadme p1 p2 c) \<and>
   comparison_renders p1 (generateIntelligentFallbackComparison p1 p2) \<and>
   comparison_renders p2 (generateIntelligentFallbackComparison p1 p2) \<and>
   readme_renders p1 (generateIntelligentFallbackReadme p1 p2 c) \<and>
   readme_renders p2 (generateIntelligentFallbackReadme p1 p2 c) \<and>
   sublist c (generateIntelligentFallbackReadme p1 p2 c)"
proof -
  have a: "fst (generateComparisonWithFallback w p1 p2 s) =
     (case generateText_comparison w p1 p2 of
        Generated t \<Rightarrow> t
      | Failed e \<Rightarrow> generateIntelligentFallbackComparison p1 p2)"
    by (simp add: generateComparisonWithFallback_def Let_def split: llm_outcome.split)
  have b: "fst (generateReadmeWithFallback w p1 p2 c s) =
     (case generateText_readme w p1 p2 c of
        Generated t \<Rightarrow> t
      | Failed e \<Rightarrow> generateIntelligentFallbackReadme p1 p2 c)"
    by (simp add: generateReadmeWithFallback_def Let_def split: llm_outcome.split)
  from a b comparison_renders_first [of p1 p2] comparison_renders_second [of p2 p1]
    readme_renders_first [of p1 p2 c] readme_renders_second [of p2 p1 c]
    readme_embeds_comparison [of c p1 p2]
  show ?thesis by blast
qed

theorem fallback_texts_render_witness:
  "fst (generateComparisonWithFallback demo_world demo_lamp demo_phone initial_state) =
     generateIntelligentFallbackComparison demo_lamp demo_phone \<and>
   sublist ''- **Desk Lamp**: Price not available''
     (generateIntelligentFallbackComparison demo_lamp demo_phone) \<and>
   sublist ''- Features not available''
     (generateIntelligentFallbackComparison demo_lamp demo_phone) \<and>
   sublist ''- **Pixel Phone**: $499.99''
     (generateIntelligentFallbackComparison demo_lamp demo_phone) \<and>
   sublist ''- **Storage**: 128GB''
     (generateIntelligentFallbackComparison demo_lamp demo_phone)"
proof -
  note t = fallback_texts_render [of demo_world demo_lamp demo_phone initial_state]
  have f: "generateText_comparison demo_world demo_lamp demo_phone =
      Failed (ErrorObject ''Quota exceeded'')"
    by (simp add: demo_world_def)
  from t have a: "fst (generateComparisonWithFallback demo_world demo_lamp demo_phone
      initial_state) = generateIntelligentFallbackComparison demo_lamp demo_phone"
    by (simp add: f)
  from t have l: "comparison_renders demo_lamp
      (generateIntelligentFallbackComparison demo_lamp demo_phone)"
    and p: "comparison_renders demo_phone
      (generateIntelligentFallbackComparison demo_lamp demo_phone)"
    by blast+
  have ln: "name demo_lamp = ''Desk Lamp''" "price demo_lamp = []" "features demo_lamp = []"
    by (simp_all add: demo_lamp_def)
  have pn: "name demo_phone = ''Pixel Phone''" "price demo_phone = ''$499.99''"
    "specifications demo_phone = [(''Type'', ''Smartphone''), (''Storage'', ''128GB'')]"
    by (simp_all add: demo_phone_def)
  from l have b: "sublist ''- **Desk Lamp**: Price not available''
      (generateIntelligentFallbackComparison demo_lamp demo_phone)"
    and c: "sublist ''- Features not available''
      (generateIntelligentFallbackComparison demo_lamp demo_phone)"
    unfolding comparison_renders_def ln by simp_all
  from p have d: "sublist ''- **Pixel Phone**: $499.99''
      (generateIntelligentFallbackComparison demo_lamp demo_phone)"
    and e: "sublist ''- **Storage**: 128GB''
      (generateIntelligentFallbackComparison demo_lamp demo_phone)"
    unfolding comparison_renders_def pn by simp_all
  from a b c d e show ?thesis by blast
qed

lemma comparison_has_no_Z:
  "CHR ''Z'' \<notin> set (generateIntelligentFallbackComparison demo_lamp demo_lamp)"
  by (simp add: generateIntelligentFallbackComparison_def demo_lamp_def nl_def or_else_def
      feature_lines_def specification_lines_def)

lemma comparison_has_no_4:
  "CHR ''4'' \<notin> set (generateIntelligentFallbackComparison demo_lamp demo_lamp)"
  by (simp add: generateIntelligentFallbackComparison_def demo_lamp_def nl_def or_else_def
      feature_lines_def specification_lines_def)

lemma readme_has_no_Z:
  "CHR ''Z'' \<notin> set (generateIntelligentFallbackReadme demo_lamp demo_lamp
     (generateIntelligentFallbackComparison demo_lamp demo_lamp))"
proof -
  have "CHR ''Z'' \<notin> set (generateIntelligentFallbackReadme demo_lamp demo_lamp c)"
    if "CHR ''Z'' \<notin> set c" for c
    using that
    by (simp add: generateIntelligentFallbackReadme_def demo_lamp_def nl_def or_else_def
        feature_lines_def)
  then show ?thesis using comparison_has_no_Z .
qed

text \<open>
  The claim as stated fails on the fields the templates leave out. A product with the
  description "Zen design" and the rating "4.5/5": neither occurs in the fallback
  comparison, and the description does not occur in the fallback document built on it.
\<close>

theorem fallback_texts_counterexample:
  "description demo_lamp = ''Zen design'' \<and>
   \<not> sublist (description demo_lamp)
       (generateIntelligentFallbackComparison demo_lamp demo_lamp) \<and>
   rating demo_lamp = ''4.5/5'' \<and>
   \<not> sublist (rating demo_lamp)
       (generateIntelligentFallbackComparison demo_lamp demo_lamp) \<and>
   \<not> sublist (description demo_lamp)
       (generateIntelligentFallbackReadme demo_lamp demo_lamp
          (generateIntelligentFallbackComparison demo_lamp demo_lamp))"
proof -
  have d: "description demo_lamp = ''Zen design''" and r: "rating demo_lamp = ''4.5/5''"
    by (simp_all add: demo_lamp_def)
  have 1: "\<not> sublist ''Zen design'' (generateIntelligentFallbackComparison demo_lamp demo_lamp)"
    using comparison_has_no_Z
      set_mono_sublist [of "''Zen design''"
        "generateIntelligentFallbackComparison demo_lamp demo_lamp"]
    by auto
  have 2: "\<not> sublist ''4.5/5'' (generateIntelligentFallbackComparison demo_lamp demo_lamp)"
    using comparison_has_no_4
      set_mono_sublist [of "''4.5/5''"
        "generateIntelligentFallbackComparison demo_lamp demo_lamp"]
    by auto
  have 3: "\<not> sublist ''Zen design''
      (generateIntelligentFallbackReadme demo_lamp demo_lamp
         (generateIntelligentFallbackComparison demo_lamp demo_lamp))"
    using readme_has_no_Z
      set_mono_sublist [of "''Zen design''"
        "generateIntelligentFallbackReadme demo_lamp demo_lamp
           (generateIntelligentFallbackComparison demo_lamp demo_lamp)"]
    by auto
  from d r 1 2 3 show ?thesis by simp
qed

section \<open>The request orchestrator\<close>

lemma demo_key_configured: "\<not> key_not_configured (OPENAI_API_KEY demo_world)"
  by code_simp

lemma select_scrapers_empty_array: "select_scrapers w (JArray []) = Inr []"
  by (simp add: select_scrapers_def)

lemma none_names_no_method:
  "\<not> sublist ''scrapybara'' ''none'' \<and> \<not> sublist ''playwright'' ''none'' \<and>
   \<not> sublist ''puppeteer'' ''none''"
  by code_simp

lemma select_scrapers_none: "select_scrapers w (JString ''none'') = Inr []"
  using none_names_no_method by (simp add: select_scrapers_def str_includes_def)

lemma select_scrapers_no_includes:
  "\<not> has_includes v \<Longrightarrow> select_scrapers w v = Inl (ErrorObject (includes_TypeError w v))"
  by (cases v) (simp_all add: select_scrapers_def)

text \<open>
  C7, as the code has it. A request with both product names and an empty methods list
  makes no call to a scraper or to the model and draws no random number. With a
  configured key the answer is the 400 validation error "No valid scraping methods
  selected", and the only entry logged is the info entry that announces the comparison,
  with the names and the (empty) methods list as its context. Without a configured key
  the check of the key comes first: the answer is the 500 configuration error and the
  only entry logged is the error entry of that check.
\<close>

theorem empty_methods_rejected:
  assumes "product1 b = Some n1" and "n1 \<noteq> []"
    and "product2 b = Some n2" and "n2 \<noteq> []"
    and "methods b = JArray []"
  shows
    "POST w (Inr b) s =
       (if key_not_configured (OPENAI_API_KEY w) then
          (\<lparr>status = 500,
            body = SetupBody ''OpenAI API key not configured''
              ''Please add a valid OPENAI_API_KEY to your .env file'' setup_steps\<rparr>,
           s\<lparr>logs := logs s @
                [\<lparr>level = Error, message = ''OpenAI API key not configured properly'',
                  context_data = JUndefined\<rparr>]\<rparr>)
        else
          (\<lparr>status = 400, body = ErrorBody ''No valid scraping methods selected''\<rparr>,
           s\<lparr>logs := logs s @
                [\<lparr>level = Info,
                  message = ''Starting product comparison with intelligent browser automation'',
                  context_data = JObject [(''product1'', JString n1), (''product2'', JString n2),
                                          (''methods'', JArray [])]\<rparr>]\<rparr>)) \<and>
     calls (snd (POST w (Inr b) s)) = calls s \<and>
     randoms (snd (POST w (Inr b) s)) = randoms s"
  using assms
  by (simp add: POST_def Let_def select_scrapers_empty_array log_info_def log_error_def
      logger_add_def)

theorem empty_methods_rejected_witness:
  "product1 (demo_request ''Desk Lamp'' ''Floor Lamp'' (JArray [])) = Some ''Desk Lamp'' \<and>
   ''Desk Lamp'' \<noteq> [] \<and>
   product2 (demo_request ''Desk Lamp'' ''Floor Lamp'' (JArray [])) = Some ''Floor Lamp'' \<and>
   ''Floor Lamp'' \<noteq> [] \<and>
   methods (demo_request ''Desk Lamp'' ''Floor Lamp'' (JArray [])) = JArray [] \<and>
   fst (POST demo_world (Inr (demo_request ''Desk Lamp'' ''Floor Lamp'' (JArray [])))
          initial_state) =
     \<lparr>status = 400, body = ErrorBody ''No valid scraping methods selected''\<rparr> \<and>
   calls (snd (POST demo_world (Inr (demo_request ''Desk Lamp'' ''Floor Lamp'' (JArray [])))
                 initial_state)) = []"
proof -
  let ?b = "demo_request ''Desk Lamp'' ''Floor Lamp'' (JArray [])"
  have h: "product1 ?b = Some ''Desk Lamp''" "''Desk Lamp'' \<noteq> []"
    "product2 ?b = Some ''Floor Lamp''" "''Floor Lamp'' \<noteq> []" "methods ?b = JArray []"
    by (simp_all add: demo_request_def)
  note t = empty_methods_rejected [OF h, of demo_world initial_state]
  from t have "fst (POST demo_world (Inr ?b) initial_state) =
      \<lparr>status = 400, body = ErrorBody ''No valid scraping methods selected''\<rparr>"
    by (simp add: demo_key_configured)
  moreover from t have "calls (snd (POST demo_world (Inr ?b) initial_state)) = []"
    by (simp add: initial_state_def)
  ultimately show ?thesis using h by blast
qed

text \<open>
  The claim as stated fails when the key is not configured: the same request is then
  answered with the 500 configuration error, not with a client validation error.
\<close>

theorem empty_methods_without_key_counterexample:
  "fst (POST (demo_world\<lparr>OPENAI_API_KEY := None\<rparr>)
          (Inr (demo_request ''Desk Lamp'' ''Floor Lamp'' (JArray []))) initial_state) =
     \<lparr>status = 500,
      body = SetupBody ''OpenAI API key not configured''
        ''Please add a valid OPENAI_API_KEY to your .env file'' setup_steps\<rparr>"
  by (simp add: POST_def demo_request_def)

lemma POST_without_includes:
  assumes "product1 b = Some n1" and "n1 \<noteq> []"
    and "product2 b = Some n2" and "n2 \<noteq> []"
    and "\<not> key_not_configured (OPENAI_API_KEY w)"
    and "\<not> has_includes (methods b)"
  shows
    "POST w (Inr b) s =
       (\<lparr>status = 500,
         body = FailureBody
           ''Failed to compare products. Please check your configuration and try again.''
           (includes_TypeError w (methods b))
           (logs s @
            [\<lparr>level = Info,
              message = ''Starting product comparison with intelligent browser automation'',
              context_data = JObject [(''product1'', JString n1), (''product2'', JString n2),
                                      (''methods'', methods b)]\<rparr>,
             \<lparr>level = Error, message = ''Error in product comparison'',
              context_data =
                JObject [(''error'', JString (includes_TypeError w (methods b)))]\<rparr>])\<rparr>,
        s\<lparr>logs := logs s @
             [\<lparr>level = Info,
               message = ''Starting product comparison with intelligent browser automation'',
               context_data = JObject [(''product1'', JString n1), (''product2'', JString n2),
                                       (''methods'', methods b)]\<rparr>,
              \<lparr>level = Error, message = ''Error in product comparison'',
               context_data =
                 JObject [(''error'', JString (includes_TypeError w (methods b)))]\<rparr>]\<rparr>)"
  using assms
  by (simp add: POST_def Let_def select_scrapers_no_includes catch_block_def getLogs_def
      log_info_def log_error_def logger_add_def)

text \<open>
  C10, as the code has it. With both product names and a configured key, a methods
  field that has no \<^verbatim>\<open>includes\<close> method (missing, null, a boolean, a number or an
  object: anything but an array or a string) makes the first membership test raise; the
  catch block answers with the generic 500 response, whose details are the message of the
  exception and whose logs end with the start entry and the entry of the catch block. A
  string has an \<^verbatim>\<open>includes\<close> of its own and raises nothing.
\<close>

theorem methods_without_includes_caught:
  assumes "product1 b = Some n1" and "n1 \<noteq> []"
    and "product2 b = Some n2" and "n2 \<noteq> []"
    and "\<not> key_not_configured (OPENAI_API_KEY w)"
    and "\<not> has_includes (methods b)"
  shows
    "POST w (Inr b) s =
       (\<lparr>status = 500,
         body = FailureBody
           ''Failed to compare products. Please check your configuration and try again.''
           (includes_TypeError w (methods b))
           (logs s @
            [\<lparr>level = Info,
              message = ''Starting product comparison with intelligent browser automation'',
              context_data = JObject [(''product1'', JString n1), (''product2'', JString n2),
                                      (''methods'', methods b)]\<rparr>,
             \<lparr>level = Error, message = ''Error in product comparison'',
              context_data =
                JObject [(''error'', JString (includes_TypeError w (methods b)))]\<rparr>])\<rparr>,
        s\<lparr>logs := logs s @
             [\<lparr>level = Info,
               message = ''Starting product comparison with intelligent browser automation'',
               context_data = JObject [(''product1'', JString n1), (''product2'', JString n2),
                                       (''methods'', methods b)]\<rparr>,
              \<lparr>level = Error, message = ''Error in product comparison'',
               context_data =
                 JObject [(''error'', JString (includes_TypeError w (methods b)))]\<rparr>]\<rparr>) \<and>
     js_includes w (JString t) x = Inr (str_includes t x)"
  using POST_without_includes [OF assms, of s] by simp

theorem methods_without_includes_caught_witness:
  "product1 (demo_request ''Kettle'' ''Toaster'' (JNumber 5)) = Some ''Kettle'' \<and> ''Kettle'' \<noteq> [] \<and>
   product2 (demo_request ''Kettle'' ''Toaster'' (JNumber 5)) = Some ''Toaster'' \<and> ''Toaster'' \<noteq> [] \<and>
   \<not> key_not_configured (OPENAI_API_KEY demo_world) \<and>
   \<not> has_includes (methods (demo_request ''Kettle'' ''Toaster'' (JNumber 5))) \<and>
   status (fst (POST demo_world (Inr (demo_request ''Kettle'' ''Toaster'' (JNumber 5)))
                  initial_state)) = 500"
proof -
  let ?b = "demo_request ''Kettle'' ''Toaster'' (JNumber 5)"
  have h: "product1 ?b = Some ''Kettle''" "''Kettle'' \<noteq> []"
    "product2 ?b = Some ''Toaster''" "''Toaster'' \<noteq> []"
    "\<not> key_not_configured (OPENAI_API_KEY demo_world)" "\<not> has_includes (methods ?b)"
    by (simp_all add: demo_request_def demo_key_configured)
  have "status (fst (POST demo_world (Inr ?b) initial_state)) = 500"
    by (simp add: methods_without_includes_caught [OF h, of initial_state, THEN conjunct1])
  with h show ?thesis by blast
qed

text \<open>
  The claim as stated fails for a methods field that is a string: the membership tests
  are substring tests, nothing is raised, and a string that names no method gets the 400
  validation error for the source selection.
\<close>

theorem string_methods_counterexample:
  "fst (POST demo_world (Inr (demo_request ''Kettle'' ''Toaster'' (JString ''none'')))
          initial_state) =
     \<lparr>status = 400, body = ErrorBody ''No valid scraping methods selected''\<rparr>"
  using demo_key_configured
  by (simp add: POST_def Let_def demo_request_def select_scrapers_none)

section \<open>The lifetime of the log\<close>

lemma logs_scrape_step: "prefix (logs s) (logs (snd (scrape_step w n (rs, s) sc)))"
  by (simp add: scrape_step.simps Let_def log_info_def log_warn_def logger_add_def
      fallback_data_def split: scrape_outcome.split option.split)

lemma logs_foldl_scrape_step:
  "prefix (logs (snd acc)) (logs (snd (foldl (scrape_step w n) acc scs)))"
proof (induction scs arbitrary: acc)
  case Nil
  show ?case by simp
next
  case (Cons sc scs)
  obtain rs s where acc: "acc = (rs, s)" by (cases acc)
  have "prefix (logs s) (logs (snd (scrape_step w n (rs, s) sc)))"
    by (rule logs_scrape_step)
  also have "prefix \<dots> (logs (snd (foldl (scrape_step w n) (scrape_step w n (rs, s) sc) scs)))"
    by (rule Cons.IH)
  finally show ?case by (simp add: acc)
qed

lemma logs_collect_results: "prefix (logs s) (logs (snd (collect_results w n scs s)))"
proof -
  let ?acc = "foldl (scrape_step w n) ([], s) scs"
  have a: "prefix (logs s) (logs (snd ?acc))"
    using logs_foldl_scrape_step [of "([], s)" w n scs] by simp
  have "prefix (logs (snd ?acc)) (logs (snd (collect_results w n scs s)))"
    by (simp add: collect_results_def Let_def fallback_data_def log_info_def logger_add_def)
  with a show ?thesis by (rule prefix_order.trans)
qed

lemma logs_aggregator:
  "prefix (logs s) (logs (snd (scrapeProductDataWithFallback w n scs s)))"
  by (simp add: scrapeProductDataWithFallback_def Let_def logs_collect_results)

lemma logs_generateComparison:
  "prefix (logs s) (logs (snd (generateComparisonWithFallback w p1 p2 s)))"
  by (simp add: generateComparisonWithFallback_def Let_def log_info_def log_error_def
      logger_add_def split: llm_outcome.split)

lemma logs_generateReadme:
  "prefix (logs s) (logs (snd (generateReadmeWithFallback w p1 p2 c s)))"
  by (simp add: generateReadmeWithFallback_def Let_def log_info_def log_error_def
      logger_add_def split: llm_outcome.split)

lemma logs_compare_products:
  "\<exists>l. response_logs (body (fst (compare_products w n1 n2 scs s))) = Some l \<and>
       prefix (logs s) l \<and> prefix l (logs (snd (compare_products w n1 n2 scs s)))"
proof -
  let ?d1 = "scrapeProductDataWithFallback w n1 scs s"
  let ?d2 = "scrapeProductDataWithFallback w n2 scs (snd ?d1)"
  let ?s3 = "log_info ''Intelligent browser automation completed''
     (JObject [(''product1Features'', JNumber (of_nat (length (features (fst ?d1))))),
               (''product2Features'', JNumber (of_nat (length (features (fst ?d2)))))])
     (snd ?d2)"
  let ?c = "generateComparisonWithFallback w (fst ?d1) (fst ?d2) ?s3"
  let ?r = "generateReadmeWithFallback w (fst ?d1) (fst ?d2) (fst ?c) (snd ?c)"
  have "prefix (logs s) (logs (snd ?d1))" by (rule logs_aggregator)
  also have "prefix \<dots> (logs (snd ?d2))" by (rule logs_aggregator)
  also have "prefix \<dots> (logs ?s3)" by (simp add: log_info_def logger_add_def)
  also have "prefix \<dots> (logs (snd ?c))" by (rule logs_generateComparison)
  also have "prefix \<dots> (logs (snd ?r))" by (rule logs_generateReadme)
  finally have a: "prefix (logs s) (logs (snd ?r))" .
  have b: "response_logs (body (fst (compare_products w n1 n2 scs s))) = Some (logs (snd ?r))"
    by (simp add: compare_products_def Let_def getLogs_def)
  have c: "prefix (logs (snd ?r)) (logs (snd (compare_products w n1 n2 scs s)))"
    by (simp add: compare_products_def Let_def log_info_def logger_add_def)
  from a b c show ?thesis by blast
qed

lemma logs_catch_block:
  "response_logs (body (fst (catch_block e s))) = Some (logs (snd (catch_block e s))) \<and>
   prefix (logs s) (logs (snd (catch_block e s)))"
  by (simp add: catch_block_def Let_def getLogs_def log_error_def logger_add_def)

lemma logs_POST:
  "prefix (logs s) (logs (snd (POST w req s))) \<and>
   (case response_logs (body (fst (POST w req s))) of
      None \<Rightarrow> True
    | Some l \<Rightarrow> prefix (logs s) l \<and> prefix l (logs (snd (POST w req s))))"
proof (cases req)
  case (Inl e)
  then show ?thesis using logs_catch_block [of e s] by (simp add: POST_def)
next
  case (Inr b)
  let ?n1 = "case product1 b of Some n \<Rightarrow> n | None \<Rightarrow> []"
  let ?n2 = "case product2 b of Some n \<Rightarrow> n | None \<Rightarrow> []"
  let ?s1 = "log_info ''Starting product comparison with intelligent browser automation''
     (JObject [(''product1'', JString ?n1), (''product2'', JString ?n2),
               (''methods'', methods b)]) s"
  have s1: "prefix (logs s) (logs ?s1)"
    by (simp add: log_info_def logger_add_def)
  consider (names) "\<not> truthy (product1 b) \<or> \<not> truthy (product2 b)"
    | (key) "truthy (product1 b)" "truthy (product2 b)"
        "key_not_configured (OPENAI_API_KEY w)"
    | (thrown) e where "truthy (product1 b)" "truthy (product2 b)"
        "\<not> key_not_configured (OPENAI_API_KEY w)" "select_scrapers w (methods b) = Inl e"
    | (none) "truthy (product1 b)" "truthy (product2 b)"
        "\<not> key_not_configured (OPENAI_API_KEY w)" "select_scrapers w (methods b) = Inr []"
    | (run) scs where "truthy (product1 b)" "truthy (product2 b)"
        "\<not> key_not_configured (OPENAI_API_KEY w)" "select_scrapers w (methods b) = Inr scs"
        "scs \<noteq> []"
    by (cases "select_scrapers w (methods b)") auto
  then show ?thesis
  proof cases
    case names
    then show ?thesis by (auto simp add: POST_def Inr)
  next
    case key
    then show ?thesis by (simp add: POST_def Inr log_error_def logger_add_def)
  next
    case thrown
    then have "POST w req s = catch_block e ?s1"
      by (simp add: POST_def Inr Let_def)
    moreover have "prefix (logs s) (logs (snd (catch_block e ?s1)))"
      using s1 logs_catch_block [of e ?s1] by (blast intro: prefix_order.trans)
    ultimately show ?thesis using logs_catch_block [of e ?s1] by simp
  next
    case none
    then have "POST w req s =
        (\<lparr>status = 400, body = ErrorBody ''No valid scraping methods selected''\<rparr>, ?s1)"
      by (simp add: POST_def Inr Let_def)
    then show ?thesis using s1 by simp
  next
    case run
    then have p: "POST w req s = compare_products w ?n1 ?n2 scs ?s1"
      by (simp add: POST_def Inr Let_def)
    from logs_compare_products [of w ?n1 ?n2 scs ?s1] obtain l where
      l: "response_logs (body (fst (compare_products w ?n1 ?n2 scs ?s1))) = Some l"
        "prefix (logs ?s1) l" "prefix l (logs (snd (compare_products w ?n1 ?n2 scs ?s1)))"
      by blast
    from s1 l(2) have "prefix (logs s) l" by (rule prefix_order.trans)
    moreover from this l(3)
    have "prefix (logs s) (logs (snd (compare_products w ?n1 ?n2 scs ?s1)))"
      by (rule prefix_order.trans)
    ultimately show ?thesis using l by (simp add: p)
  qed
qed

text \<open>
  C9, as the code has it. The log is an ordered, append-only sequence that belongs to
  the logger created once at module level, so its lifetime is that of the loaded module,
  not of one request: a request only adds entries at the end, and the logs attached to a
  response are all entries the logger held when the request began, in their order,
  followed by entries added during the request.
\<close>

theorem response_logs_extend_earlier_logs:
  "prefix (logs s) (logs (snd (POST w req s))) \<and>
   (case response_logs (body (fst (POST w req s))) of
      None \<Rightarrow> True
    | Some l \<Rightarrow> prefix (logs s) l \<and> prefix l (logs (snd (POST w req s))))"
  by (rule logs_POST)

lemma second_request_logs:
  "logs (snd (POST demo_world (Inr (demo_request ''Desk Lamp'' ''Floor Lamp'' (JArray [])))
                initial_state)) =
     [\<lparr>level = Info,
       message = ''Starting product comparison with intelligent browser automation'',
       context_data = JObject [(''product1'', JString ''Desk Lamp''),
                               (''product2'', JString ''Floor Lamp''),
                               (''methods'', JArray [])]\<rparr>]"
  using demo_key_configured
  by (simp add: POST_def Let_def demo_request_def select_scrapers_empty_array log_info_def
      logger_add_def initial_state_def)

theorem response_logs_extend_earlier_logs_witness:
  "prefix
     [\<lparr>level = Info,
       message = ''Starting product comparison with intelligent browser automation'',
       context_data = JObject [(''product1'', JString ''Desk Lamp''),
                               (''product2'', JString ''Floor Lamp''),
                               (''methods'', JArray [])]\<rparr>]
     (logs (snd (POST demo_world (Inr (demo_request ''Kettle'' ''Toaster'' (JNumber 5)))
        (snd (POST demo_world (Inr (demo_request ''Desk Lamp'' ''Floor Lamp'' (JArray [])))
                initial_state)))))"
  using response_logs_extend_earlier_logs
    [of "snd (POST demo_world (Inr (demo_request ''Desk Lamp'' ''Floor Lamp'' (JArray [])))
                initial_state)"
        demo_world "Inr (demo_request ''Kettle'' ''Toaster'' (JNumber 5))"]
  by (simp only: second_request_logs)

text \<open>
  The claim as stated fails for the second request a module handles. After a first
  request for "Desk Lamp" and "Floor Lamp", the response to a request for "Kettle" and
  "Toaster" carries three entries, and the first of them is the entry of the first
  request.
\<close>

theorem carried_over_logs_counterexample:
  "response_logs (body (fst
     (POST demo_world (Inr (demo_request ''Kettle'' ''Toaster'' (JNumber 5)))
        (snd (POST demo_world (Inr (demo_request ''Desk Lamp'' ''Floor Lamp'' (JArray [])))
                initial_state))))) =
   Some
     [\<lparr>level = Info,
       message = ''Starting product comparison with intelligent browser automation'',
       context_data = JObject [(''product1'', JString ''Desk Lamp''),
                               (''product2'', JString ''Floor Lamp''),
                               (''methods'', JArray [])]\<rparr>,
      \<lparr>level = Info,
       message = ''Starting product comparison with intelligent browser automation'',
       context_data = JObject [(''product1'', JString ''Kettle''),
                               (''product2'', JString ''Toaster''),
                               (''methods'', JNumber 5)]\<rparr>,
      \<lparr>level = Error, message = ''Error in product comparison'',
       context_data = JObject [(''error'', JString ''methods.includes is not a function'')]\<rparr>]"
proof -
  let ?b = "demo_request ''Kettle'' ''Toaster'' (JNumber 5)"
  let ?s1 = "snd (POST demo_world (Inr (demo_request ''Desk Lamp'' ''Floor Lamp'' (JArray [])))
                initial_state)"
  have h: "product1 ?b = Some ''Kettle''" "''Kettle'' \<noteq> []"
    "product2 ?b = Some ''Toaster''" "''Toaster'' \<noteq> []"
    "\<not> key_not_configured (OPENAI_API_KEY demo_world)" "\<not> has_includes (methods ?b)"
    by (simp_all add: demo_request_def demo_key_configured)
  have m: "methods ?b = JNumber 5"
    "includes_TypeError demo_world (JNumber 5) = ''methods.includes is not a function''"
    by (simp_all add: demo_request_def demo_world_def)
  show ?thesis
    by (simp add: POST_without_includes [OF h, of ?s1] m second_request_logs)
qed

end
